theory Spec2Isabelle
  imports Main "HOL-Library.Word" "HOL-Library.Sublist"
begin

section \<open>JavaScript strings\<close>

text \<open>
  A JavaScript string is a sequence of UTF-16 code units; \<open>length\<close>, \<open>includes\<close>,
  \<open>trim\<close> and a regular expression without the \<open>u\<close> flag all work on code units.
  String literals of the source are ASCII, so \<open>js\<close> maps each character of a literal to
  the code unit of the same number.
\<close>

type_synonym jschar = "16 word"
type_synonym jsstring = "jschar list"

definition js :: "string \<Rightarrow> jsstring" where
  "js s = map of_char s"

text \<open>
  The characters matched by \<open>\s\<close> and stripped by \<open>String.prototype.trim\<close>: the
  WhiteSpace and LineTerminator code points of ECMAScript (TAB, LF, VT, FF, CR, SP, NBSP,
  U+1680, U+2000 to U+200A, U+2028, U+2029, U+202F, U+205F, U+3000, U+FEFF).
\<close>

definition is_space :: "jschar \<Rightarrow> bool" where
  "is_space c \<longleftrightarrow>
     c \<in> set [0x09, 0x0A, 0x0B, 0x0C, 0x0D, 0x20, 0xA0, 0x1680,
       0x2000, 0x2001, 0x2002, 0x2003, 0x2004, 0x2005, 0x2006, 0x2007, 0x2008, 0x2009, 0x200A,
       0x2028, 0x2029, 0x202F, 0x205F, 0x3000, 0xFEFF]"

definition trim :: "jsstring \<Rightarrow> jsstring" where
  "trim s = rev (dropWhile is_space (rev (dropWhile is_space s)))"

text \<open>\<open>s.includes(sub)\<close>: \<open>sub\<close> occurs in \<open>s\<close> as a contiguous run of code units.\<close>

fun includes_str :: "jsstring \<Rightarrow> jsstring \<Rightarrow> bool" where
  "includes_str [] sub = (sub = [])"
| "includes_str (c # cs) sub = (prefix sub (c # cs) \<or> includes_str cs sub)"

subsection \<open>The regular expressions the source uses\<close>

text \<open>
  The one regular expression of the source, \<open>/^[^\s@]+@[^\s@]+\.[^\s@]+$/\<close>, is anchored
  at both ends and is a sequence of literal characters and of character classes under
  \<open>+\<close>. \<open>re_test\<close> is \<open>RegExp.prototype.test\<close> for such an expression: it holds
  when some way of splitting the whole string matches (the engine backtracks over all).
\<close>

datatype re_item = Lit jschar | OneOrMore "jschar \<Rightarrow> bool"

fun re_test :: "re_item list \<Rightarrow> jsstring \<Rightarrow> bool" where
  "re_test [] [] = True"
| "re_test [] (c # cs) = False"
| "re_test (i # r) [] = False"
| "re_test (Lit a # r) (c # cs) = (c = a \<and> re_test r cs)"
| "re_test (OneOrMore p # r) (c # cs) = (p c \<and> (re_test r cs \<or> re_test (OneOrMore p # r) cs))"

definition not_space_at :: "jschar \<Rightarrow> bool" where
  "not_space_at c \<longleftrightarrow> \<not> is_space c \<and> c \<noteq> 0x40"

definition email_re :: "re_item list" where
  "email_re = [OneOrMore not_space_at, Lit 0x40, OneOrMore not_space_at, Lit 0x2E,
     OneOrMore not_space_at]"

section \<open>The authentication modal (AuthModal.tsx)\<close>

datatype auth_mode = signin | signup

record FormData =
  email :: jsstring
  password :: jsstring
  fullName :: jsstring
  confirmPassword :: jsstring

text \<open>\<open>FormErrors\<close>: every key is optional; \<open>None\<close> is an absent (or undefined) key.\<close>

record FormErrors =
  email_error :: "jsstring option"
  password_error :: "jsstring option"
  fullName_error :: "jsstring option"
  confirmPassword_error :: "jsstring option"
  general_error :: "jsstring option"

definition no_errors :: FormErrors where
  "no_errors = \<lparr>email_error = None, password_error = None, fullName_error = None,
     confirmPassword_error = None, general_error = None\<rparr>"

text \<open>
  \<open>validateForm\<close> builds \<open>newErrors\<close>; it returns \<open>Object.keys(newErrors).length === 0\<close>.
  Every key it adds holds a non-empty literal, so no key was added exactly when the
  record is \<open>no_errors\<close>.
\<close>

definition validate_email :: "jsstring \<Rightarrow> jsstring option" where
  "validate_email e =
     (if trim e = [] then Some (js ''Email is required'')
      else if \<not> re_test email_re e then Some (js ''Please enter a valid email address'')
      else None)"

definition validate_password :: "jsstring \<Rightarrow> jsstring option" where
  "validate_password p =
     (if p = [] then Some (js ''Password is required'')
      else if length p < 6 then Some (js ''Password must be at least 6 characters'')
      else None)"

definition validate_fullName :: "jsstring \<Rightarrow> jsstring option" where
  "validate_fullName n =
     (if trim n = [] then Some (js ''Full name is required'')
      else if length n < 2 then Some (js ''Full name must be at least 2 characters'')
      else None)"

definition validate_confirmPassword :: "jsstring \<Rightarrow> jsstring \<Rightarrow> jsstring option" where
  "validate_confirmPassword p c =
     (if c = [] then Some (js ''Please confirm your password'')
      else if p \<noteq> c then Some (js ''Passwords do not match'')
      else None)"

definition newErrors :: "auth_mode \<Rightarrow> FormData \<Rightarrow> FormErrors" where
  "newErrors m fd =
     \<lparr>email_error = validate_email (email fd),
      password_error = validate_password (password fd),
      fullName_error = (if m = signup then validate_fullName (fullName fd) else None),
      confirmPassword_error =
        (if m = signup then validate_confirmPassword (password fd) (confirmPassword fd)
         else None),
      general_error = None\<rparr>"

definition validateForm :: "auth_mode \<Rightarrow> FormData \<Rightarrow> bool" where
  "validateForm m fd \<longleftrightarrow> newErrors m fd = no_errors"

subsection \<open>Component state\<close>

text \<open>
  A remote call that was started and has not settled: \<open>signIn(email, password)\<close> or
  \<open>signUp(email, password, fullName)\<close> of the auth context.
\<close>

datatype request = signIn jsstring jsstring | signUp jsstring jsstring jsstring

text \<open>
  What an awaited call settles to: the promise resolves to \<open>{error?}\<close>, where the error
  carries an optional message, or the call throws.
\<close>

datatype auth_error = AuthError (message: "jsstring option")

datatype outcome = Resolved "auth_error option" | Thrown

text \<open>
  The props \<open>isOpen\<close> and \<open>initialMode\<close>, the seven \<open>useState\<close> cells, and what the
  component has handed to its environment: the remote calls not yet settled
  (\<open>pending\<close>), the clock in milliseconds (\<open>now\<close>) and, for each \<open>setTimeout\<close> callback
  not yet run, the time from which it may run (\<open>timers\<close>; the callback of each is
  \<open>onClose\<close>). Four counters record what has happened: the
  calls of \<open>onClose\<close> (\<open>closeCalls\<close>), those of them made by a timer (\<open>timerCloses\<close>),
  the times \<open>setIsSuccess(true)\<close> ran (\<open>successTotal\<close>), and those of them since the
  modal was last opened (\<open>successes\<close>).
\<close>

record AuthModal =
  isOpen :: bool
  initialMode :: auth_mode
  mode :: auth_mode
  formData :: FormData
  errors :: FormErrors
  isSubmitting :: bool
  isSuccess :: bool
  showPassword :: bool
  showConfirmPassword :: bool
  pending :: "request list"
  now :: nat
  timers :: "nat list"
  closeCalls :: nat
  timerCloses :: nat
  successTotal :: nat
  successes :: nat

definition empty_form :: FormData where
  "empty_form = \<lparr>email = [], password = [], fullName = [], confirmPassword = []\<rparr>"

definition mount :: "bool \<Rightarrow> auth_mode \<Rightarrow> AuthModal" where
  "mount opn im =
     \<lparr>isOpen = opn, initialMode = im, mode = im, formData = empty_form, errors = no_errors,
      isSubmitting = False, isSuccess = False, showPassword = False,
      showConfirmPassword = False, pending = [], now = 0, timers = [], closeCalls = 0,
      timerCloses = 0, successTotal = 0, successes = 0\<rparr>"

text \<open>The effect with dependencies \<open>[isOpen, initialMode]\<close> (lines 70 to 83).\<close>

definition reset_effect :: "AuthModal \<Rightarrow> AuthModal" where
  "reset_effect st =
     (if \<not> isOpen st
      then st\<lparr>formData := empty_form, errors := no_errors, isSuccess := False,
             mode := initialMode st\<rparr>
      else st)"

text \<open>
  The parent renders the component with new props; the effect runs when one of its
  dependencies changed. Opening the modal starts a new lifecycle.
\<close>

definition set_props :: "bool \<Rightarrow> auth_mode \<Rightarrow> AuthModal \<Rightarrow> AuthModal" where
  "set_props opn im st =
     (let st' = st\<lparr>isOpen := opn, initialMode := im,
                   successes := (if opn \<and> \<not> isOpen st then 0 else successes st)\<rparr>
      in if opn \<noteq> isOpen st \<or> im \<noteq> initialMode st then reset_effect st' else st')"

definition onClose :: "AuthModal \<Rightarrow> AuthModal" where
  "onClose st = st\<lparr>closeCalls := Suc (closeCalls st)\<rparr>"

subsection \<open>Event handlers\<close>

datatype field = f_email | f_password | f_fullName | f_confirmPassword

fun set_field :: "field \<Rightarrow> jsstring \<Rightarrow> FormData \<Rightarrow> FormData" where
  "set_field f_email v fd = fd\<lparr>email := v\<rparr>"
| "set_field f_password v fd = fd\<lparr>password := v\<rparr>"
| "set_field f_fullName v fd = fd\<lparr>fullName := v\<rparr>"
| "set_field f_confirmPassword v fd = fd\<lparr>confirmPassword := v\<rparr>"

fun get_field :: "field \<Rightarrow> FormData \<Rightarrow> jsstring" where
  "get_field f_email fd = email fd"
| "get_field f_password fd = password fd"
| "get_field f_fullName fd = fullName fd"
| "get_field f_confirmPassword fd = confirmPassword fd"

fun field_error :: "field \<Rightarrow> FormErrors \<Rightarrow> jsstring option" where
  "field_error f_email e = email_error e"
| "field_error f_password e = password_error e"
| "field_error f_fullName e = fullName_error e"
| "field_error f_confirmPassword e = confirmPassword_error e"

fun clear_field_error :: "field \<Rightarrow> FormErrors \<Rightarrow> FormErrors" where
  "clear_field_error f_email e = e\<lparr>email_error := None\<rparr>"
| "clear_field_error f_password e = e\<lparr>password_error := None\<rparr>"
| "clear_field_error f_fullName e = e\<lparr>fullName_error := None\<rparr>"
| "clear_field_error f_confirmPassword e = e\<lparr>confirmPassword_error := None\<rparr>"

text \<open>JavaScript truthiness of an optional string: defined and not empty.\<close>

definition truthy :: "jsstring option \<Rightarrow> bool" where
  "truthy v \<longleftrightarrow> (case v of None \<Rightarrow> False | Some s \<Rightarrow> s \<noteq> [])"

definition handleInputChange :: "field \<Rightarrow> jsstring \<Rightarrow> AuthModal \<Rightarrow> AuthModal" where
  "handleInputChange name v st =
     (let st' = st\<lparr>formData := set_field name v (formData st)\<rparr>
      in if truthy (field_error name (errors st))
         then st'\<lparr>errors := clear_field_error name (errors st)\<rparr>
         else st')"

text \<open>
  \<open>handleSubmit\<close> up to its \<open>await\<close>: validation, then the flag, the cleared errors and
  the remote call.
\<close>

definition handleSubmit :: "AuthModal \<Rightarrow> AuthModal" where
  "handleSubmit st =
     (if \<not> validateForm (mode st) (formData st)
      then st\<lparr>errors := newErrors (mode st) (formData st)\<rparr>
      else st\<lparr>isSubmitting := True, errors := no_errors,
             pending := pending st @
               [if mode st = signup
                then signUp (email (formData st)) (password (formData st))
                       (fullName (formData st))
                else signIn (email (formData st)) (password (formData st))]\<rparr>)"

text \<open>\<open>message?.includes(sub)\<close>: undefined (falsy) when there is no message.\<close>

definition message_includes :: "jsstring option \<Rightarrow> string \<Rightarrow> bool" where
  "message_includes m sub \<longleftrightarrow> (case m of None \<Rightarrow> False | Some s \<Rightarrow> includes_str s (js sub))"

text \<open>The chain of lines 159 to 172: the errors set for a remote error.\<close>

definition remote_error_errors :: "jsstring option \<Rightarrow> FormErrors" where
  "remote_error_errors m =
     (if message_includes m ''Invalid login credentials''
      then no_errors\<lparr>general_error := Some (js ''Invalid email or password'')\<rparr>
      else if message_includes m ''User already registered'' \<or>
              message_includes m ''already been registered''
      then no_errors\<lparr>email_error := Some (js ''An account with this email already exists'')\<rparr>
      else if message_includes m ''Password should be at least''
      then no_errors\<lparr>password_error := Some (js ''Password must be at least 6 characters long'')\<rparr>
      else if message_includes m ''Unable to validate email address''
      then no_errors\<lparr>email_error := Some (js ''Please enter a valid email address'')\<rparr>
      else if message_includes m ''Email not confirmed''
      then no_errors\<lparr>general_error :=
             Some (js ''Please check your email and confirm your account before signing in'')\<rparr>
      else no_errors\<lparr>general_error :=
             Some (if truthy m then the m
                   else js ''An unexpected error occurred. Please try again.'')\<rparr>)"

text \<open>
  \<open>handleSubmit\<close> from its \<open>await\<close> on, for the call at position \<open>i\<close> of \<open>pending\<close>:
  the branches of the \<open>try\<close>, the \<open>catch\<close>, and the \<open>finally\<close>.
\<close>

definition settle :: "nat \<Rightarrow> outcome \<Rightarrow> AuthModal \<Rightarrow> AuthModal" where
  "settle i r st =
     (let st' = st\<lparr>pending := take i (pending st) @ drop (Suc i) (pending st)\<rparr>;
          st'' =
            (case r of
               Resolved (Some e) \<Rightarrow> st'\<lparr>errors := remote_error_errors (message e)\<rparr>
             | Resolved None \<Rightarrow>
                 st'\<lparr>isSuccess := True, timers := timers st' @ [now st' + 1500],
                     successTotal := Suc (successTotal st'),
                     successes := Suc (successes st')\<rparr>
             | Thrown \<Rightarrow>
                 st'\<lparr>errors := no_errors\<lparr>general_error :=
                   Some (js ''Connection error. Please check your internet and try again.'')\<rparr>\<rparr>)
      in st''\<lparr>isSubmitting := False\<rparr>)"

text \<open>
  \<open>setTimeout(f, 1500)\<close> lets \<open>f\<close> run once, no earlier than 1500 ms after the call. A
  timer that runs calls \<open>onClose\<close> and is gone.
\<close>

definition fire_timer :: "nat \<Rightarrow> AuthModal \<Rightarrow> AuthModal" where
  "fire_timer i st =
     onClose (st\<lparr>timers := take i (timers st) @ drop (Suc i) (timers st),
                 timerCloses := Suc (timerCloses st)\<rparr>)"

definition switchMode :: "AuthModal \<Rightarrow> AuthModal" where
  "switchMode st =
     st\<lparr>mode := (if mode st = signin then signup else signin),
        errors := no_errors,
        formData := \<lparr>email = email (formData st), password = [], fullName = [],
                      confirmPassword = []\<rparr>\<rparr>"

text \<open>\<open>handleBackdropClick\<close>: \<open>on_panel\<close> is \<open>e.target !== e.currentTarget\<close>.\<close>

definition handleBackdropClick :: "bool \<Rightarrow> AuthModal \<Rightarrow> AuthModal" where
  "handleBackdropClick on_panel st = (if \<not> on_panel then onClose st else st)"

definition handleEscKey :: "string \<Rightarrow> AuthModal \<Rightarrow> AuthModal" where
  "handleEscKey k st = (if k = ''Escape'' \<and> isOpen st then onClose st else st)"

subsection \<open>What the rendered component lets happen\<close>

text \<open>
  The component renders nothing when closed, the success display instead of the form
  when \<open>isSuccess\<close>, the full-name and confirm-password inputs in signup mode only, and
  the submit button with \<open>disabled={isSubmitting}\<close>. An event that its control does not
  offer leaves the state as it is. \<open>Tick d\<close> is the passing of \<open>d\<close> milliseconds.
\<close>

datatype event =
    Props bool auth_mode
  | Input field jsstring
  | Submit
  | SwitchMode
  | ToggleShowPassword
  | ToggleShowConfirmPassword
  | CloseButton
  | BackdropClick bool
  | KeyDown string
  | Settle nat outcome
  | Tick nat
  | Timeout nat

definition form_rendered :: "AuthModal \<Rightarrow> bool" where
  "form_rendered st \<longleftrightarrow> isOpen st \<and> \<not> isSuccess st"

definition input_rendered :: "field \<Rightarrow> AuthModal \<Rightarrow> bool" where
  "input_rendered f st \<longleftrightarrow>
     form_rendered st \<and> (f = f_fullName \<or> f = f_confirmPassword \<longrightarrow> mode st = signup)"

definition submit_disabled :: "AuthModal \<Rightarrow> bool" where
  "submit_disabled st \<longleftrightarrow> isSubmitting st"

fun step :: "event \<Rightarrow> AuthModal \<Rightarrow> AuthModal" where
  "step (Props opn im) st = set_props opn im st"
| "step (Input f v) st = (if input_rendered f st then handleInputChange f v st else st)"
| "step Submit st =
     (if form_rendered st \<and> \<not> submit_disabled st then handleSubmit st else st)"
| "step SwitchMode st = (if form_rendered st then switchMode st else st)"
| "step ToggleShowPassword st =
     (if form_rendered st then st\<lparr>showPassword := \<not> showPassword st\<rparr> else st)"
| "step ToggleShowConfirmPassword st =
     (if form_rendered st \<and> mode st = signup
      then st\<lparr>showConfirmPassword := \<not> showConfirmPassword st\<rparr> else st)"
| "step CloseButton st = (if isOpen st then onClose st else st)"
| "step (BackdropClick on_panel) st =
     (if isOpen st then handleBackdropClick on_panel st else st)"
| "step (KeyDown k) st = (if isOpen st then handleEscKey k st else st)"
| "step (Settle i r) st = (if i < length (pending st) then settle i r st else st)"
| "step (Tick d) st = st\<lparr>now := now st + d\<rparr>"
| "step (Timeout i) st =
     (if i < length (timers st) \<and> timers st ! i \<le> now st then fire_timer i st else st)"

fun run :: "event list \<Rightarrow> AuthModal \<Rightarrow> AuthModal" where
  "run [] st = st"
| "run (e # es) st = run es (step e st)"

section \<open>The database migrations\<close>

text \<open>
  The two migrations run in the order of their timestamps: 20250808054401 first, then
  20250808054800. An identity is a \<open>uuid\<close>; a nullable column is an \<open>option\<close>; a table
  with a primary key is a map from the key.
\<close>

type_synonym uuid = nat

record auth_user =
  users_id :: uuid
  users_email :: "string option"
  raw_user_meta_data :: "string \<rightharpoonup> string"

text \<open>A row of \<open>user_profiles\<close> without its key \<open>id\<close> and the columns left to their defaults.\<close>

record user_profile =
  full_name :: "string option"
  profile_email :: "string option"
  role :: "string option"

type_synonym profiles = "uuid \<rightharpoonup> user_profile"

record registration =
  user_id :: "uuid option"
  user_email :: "string option"

text \<open>
  The error conditions a statement can raise: two constraint violations of the insert,
  the two conditions that stand apart in PL/pgSQL (a cancelled query, as by a statement
  timeout, and a failed assertion), and any other, by its message.
\<close>

datatype sql_error =
    unique_violation
  | check_violation
  | query_canceled
  | assert_failure
  | other_error string

datatype notice = WARNING string uuid sql_error

definition coalesce :: "'a option \<Rightarrow> 'a \<Rightarrow> 'a" where
  "coalesce v d = (case v of None \<Rightarrow> d | Some x \<Rightarrow> x)"

subsection \<open>The trigger function\<close>

text \<open>
  \<open>INSERT INTO public.user_profiles (id, full_name, email, role)\<close>. The statement fails on
  a key that exists (\<open>id\<close> is the primary key), on a role outside the column's check, and
  for whatever reason outside the table the environment gives (\<open>fault\<close>).
\<close>

definition insert_profile ::
  "sql_error option \<Rightarrow> uuid \<Rightarrow> user_profile \<Rightarrow> profiles \<Rightarrow> sql_error + profiles" where
  "insert_profile fault i r tbl =
     (case fault of
        Some e \<Rightarrow> Inl e
      | None \<Rightarrow>
          if tbl i \<noteq> None then Inl unique_violation
          else if role r \<noteq> None \<and> role r \<noteq> Some ''user'' \<and> role r \<noteq> Some ''admin''
          then Inl check_violation
          else Inr (tbl(i \<mapsto> r)))"

record trigger_result =
  profiles_after :: profiles
  raised :: "notice list"
  returned :: "sql_error + auth_user"

type_synonym trigger_fn = "sql_error option \<Rightarrow> auth_user \<Rightarrow> profiles \<Rightarrow> trigger_result"

text \<open>
  The condition \<open>OTHERS\<close> of an \<open>EXCEPTION\<close> clause matches every error but
  \<open>QUERY_CANCELED\<close> and \<open>ASSERT_FAILURE\<close>.
\<close>

definition when_others :: "sql_error \<Rightarrow> bool" where
  "when_others e \<longleftrightarrow> e \<noteq> query_canceled \<and> e \<noteq> assert_failure"

text \<open>
  The row of the \<open>VALUES\<close> clause, and \<open>create_user_profile()\<close>: for an error that the
  handler \<open>WHEN OTHERS\<close> matches, what the block did is undone, the warning is raised and
  \<open>NEW\<close> is returned; an error that it does not match leaves the function as raised. The
  two migrations give the same body, with different texts of the warning.
\<close>

definition new_profile :: "auth_user \<Rightarrow> user_profile" where
  "new_profile NEW =
     \<lparr>full_name = Some (coalesce (raw_user_meta_data NEW ''full_name'') []),
      profile_email = users_email NEW,
      role = Some ''user''\<rparr>"

definition create_user_profile :: "string \<Rightarrow> trigger_fn" where
  "create_user_profile fmt fault NEW tbl =
     (case insert_profile fault (users_id NEW) (new_profile NEW) tbl of
        Inr tbl' \<Rightarrow> \<lparr>profiles_after = tbl', raised = [], returned = Inr NEW\<rparr>
      | Inl e \<Rightarrow>
          if when_others e
          then \<lparr>profiles_after = tbl, raised = [WARNING fmt (users_id NEW) e],
                returned = Inr NEW\<rparr>
          else \<lparr>profiles_after = tbl, raised = [], returned = Inl e\<rparr>)"

definition create_user_profile_054401 :: trigger_fn where
  "create_user_profile_054401 = create_user_profile ''Failed to create user profile for %: %''"

definition create_user_profile_054800 :: trigger_fn where
  "create_user_profile_054800 = create_user_profile ''Could not create user profile for %: %''"

subsection \<open>Row-level security\<close>

text \<open>SQL's three-valued logic: \<open>None\<close> is NULL.\<close>

definition sql_eq :: "'a option \<Rightarrow> 'a option \<Rightarrow> bool option" where
  "sql_eq a b =
     (case a of None \<Rightarrow> None
      | Some x \<Rightarrow> (case b of None \<Rightarrow> None | Some y \<Rightarrow> Some (x = y)))"

definition sql_or :: "bool option \<Rightarrow> bool option \<Rightarrow> bool option" where
  "sql_or a b =
     (if a = Some True \<or> b = Some True then Some True
      else if a = None \<or> b = None then None
      else Some False)"

text \<open>\<open>x IN (...)\<close> and \<open>x = ANY(ARRAY[...])\<close> over literals that are not NULL.\<close>

definition sql_in :: "'a option \<Rightarrow> 'a list \<Rightarrow> bool option" where
  "sql_in a xs = (case a of None \<Rightarrow> None | Some x \<Rightarrow> Some (x \<in> set xs))"

text \<open>
  Who asks: \<open>auth.uid()\<close> and the \<open>role\<close> claim of \<open>auth.jwt()\<close>. The policies are
  \<open>TO authenticated\<close>, so \<open>auth.uid()\<close> is not NULL.
\<close>

record session =
  uid :: uuid
  jwt_role :: "string option"

record database =
  auth_users :: "uuid \<rightharpoonup> auth_user"
  user_profiles :: profiles
  notices :: "notice list"

datatype command = SELECT | INSERT | UPDATE | DELETE

datatype relation = REGISTRATIONS | USER_PROFILES | AUTH_USERS

datatype row = registration_row registration | profile_row uuid user_profile

text \<open>
  A policy: its table, its name, its command, the tables that the sub-selects of its
  expression read, and its \<open>USING\<close> expression (\<open>WITH CHECK\<close> for \<open>INSERT\<close>) on a row.
\<close>

record policy =
  policy_on :: relation
  policy_name :: string
  policy_for :: command
  policy_reads :: "relation list"
  policy_expr :: "session \<Rightarrow> database \<Rightarrow> row \<Rightarrow> bool option"

definition on_registration ::
  "(session \<Rightarrow> database \<Rightarrow> registration \<Rightarrow> bool option) \<Rightarrow>
     session \<Rightarrow> database \<Rightarrow> row \<Rightarrow> bool option" where
  "on_registration f s db w = (case w of registration_row r \<Rightarrow> f s db r | profile_row i p \<Rightarrow> None)"

definition on_profile ::
  "(session \<Rightarrow> database \<Rightarrow> uuid \<Rightarrow> bool option) \<Rightarrow>
     session \<Rightarrow> database \<Rightarrow> row \<Rightarrow> bool option" where
  "on_profile f s db w = (case w of registration_row r \<Rightarrow> None | profile_row i p \<Rightarrow> f s db i)"

text \<open>\<open>(SELECT email FROM user_profiles WHERE id = auth.uid())\<close> and its like.\<close>

definition own_profile_email :: "session \<Rightarrow> database \<Rightarrow> string option" where
  "own_profile_email s db =
     (case user_profiles db (uid s) of None \<Rightarrow> None | Some p \<Rightarrow> profile_email p)"

definition own_profile_role :: "session \<Rightarrow> database \<Rightarrow> string option" where
  "own_profile_role s db =
     (case user_profiles db (uid s) of None \<Rightarrow> None | Some p \<Rightarrow> role p)"

definition own_users_email :: "session \<Rightarrow> database \<Rightarrow> string option" where
  "own_users_email s db =
     (case auth_users db (uid s) of None \<Rightarrow> None | Some u \<Rightarrow> users_email u)"

text \<open>\<open>EXISTS (SELECT 1 FROM user_profiles WHERE id = auth.uid() AND role = 'admin')\<close>\<close>

definition exists_admin_profile :: "session \<Rightarrow> database \<Rightarrow> bool option" where
  "exists_admin_profile s db =
     Some (case user_profiles db (uid s) of None \<Rightarrow> False
           | Some p \<Rightarrow> role p = Some ''admin'')"

text \<open>The expressions of the policies of \<open>user_profiles\<close> (the same in both migrations).\<close>

definition own_profile :: "session \<Rightarrow> database \<Rightarrow> uuid \<Rightarrow> bool option" where
  "own_profile s db i = sql_eq (Some (uid s)) (Some i)"

definition admin_profile :: "session \<Rightarrow> database \<Rightarrow> uuid \<Rightarrow> bool option" where
  "admin_profile s db i = exists_admin_profile s db"

text \<open>The expressions of the policies of \<open>registrations\<close>, by migration.\<close>

definition own_054401 :: "session \<Rightarrow> database \<Rightarrow> registration \<Rightarrow> bool option" where
  "own_054401 s db r =
     sql_or (sql_eq (Some (uid s)) (user_id r)) (sql_eq (user_email r) (own_users_email s db))"

definition admin_054401 :: "session \<Rightarrow> database \<Rightarrow> registration \<Rightarrow> bool option" where
  "admin_054401 s db r =
     sql_or (sql_in (own_users_email s db) [''admin@showgo.com'', ''support@showgo.com''])
            (sql_eq (own_profile_role s db) (Some ''admin''))"

definition own_054800 :: "session \<Rightarrow> database \<Rightarrow> registration \<Rightarrow> bool option" where
  "own_054800 s db r =
     sql_or (sql_eq (Some (uid s)) (user_id r)) (sql_eq (user_email r) (own_profile_email s db))"

definition admin_054800 :: "session \<Rightarrow> database \<Rightarrow> registration \<Rightarrow> bool option" where
  "admin_054800 s db r =
     sql_or (sql_or (exists_admin_profile s db)
                    (sql_in (own_profile_email s db)
                       [''admin@showgo.com'', ''support@showgo.com'']))
            (sql_eq (jwt_role s) (Some ''admin''))"

subsection \<open>The catalog and the statements of the migrations\<close>

text \<open>
  Of the catalog: the tables with row-level security enabled, the policies, the trigger
  functions by name, and the triggers \<open>AFTER INSERT ON auth.users FOR EACH ROW\<close> (name
  and function). The function \<open>update_updated_at_column\<close> and its trigger touch none of
  these and are left out.
\<close>

record catalog =
  rls_enabled :: "relation list"
  policies :: "policy list"
  routines :: "(string \<times> trigger_fn) list"
  triggers :: "(string \<times> string) list"

datatype ddl =
    ENABLE_ROW_LEVEL_SECURITY relation
  | DROP_POLICY_IF_EXISTS string relation
  | CREATE_POLICY policy
  | CREATE_OR_REPLACE_FUNCTION string trigger_fn
  | DROP_TRIGGER_IF_EXISTS string
  | CREATE_TRIGGER string string

datatype ddl_error = duplicate_object string | undefined_function string

fun exec_ddl :: "ddl \<Rightarrow> catalog \<Rightarrow> ddl_error + catalog" where
  "exec_ddl (ENABLE_ROW_LEVEL_SECURITY t) c =
     Inr (c\<lparr>rls_enabled := List.insert t (rls_enabled c)\<rparr>)"
| "exec_ddl (DROP_POLICY_IF_EXISTS n t) c =
     Inr (c\<lparr>policies :=
            filter (\<lambda>p. \<not> (policy_on p = t \<and> policy_name p = n)) (policies c)\<rparr>)"
| "exec_ddl (CREATE_POLICY p) c =
     (if list_ex (\<lambda>q. policy_on q = policy_on p \<and> policy_name q = policy_name p) (policies c)
      then Inl (duplicate_object (policy_name p))
      else Inr (c\<lparr>policies := policies c @ [p]\<rparr>))"
| "exec_ddl (CREATE_OR_REPLACE_FUNCTION n f) c =
     Inr (c\<lparr>routines := (n, f) # filter (\<lambda>(m, g). m \<noteq> n) (routines c)\<rparr>)"
| "exec_ddl (DROP_TRIGGER_IF_EXISTS n) c =
     Inr (c\<lparr>triggers := filter (\<lambda>(m, g). m \<noteq> n) (triggers c)\<rparr>)"
| "exec_ddl (CREATE_TRIGGER n f) c =
     (if n \<in> set (map fst (triggers c)) then Inl (duplicate_object n)
      else if f \<notin> set (map fst (routines c)) then Inl (undefined_function f)
      else Inr (c\<lparr>triggers := triggers c @ [(n, f)]\<rparr>))"

fun exec_all :: "ddl list \<Rightarrow> catalog \<Rightarrow> ddl_error + catalog" where
  "exec_all [] c = Inr c"
| "exec_all (d # ds) c = (case exec_ddl d c of Inl e \<Rightarrow> Inl e | Inr c' \<Rightarrow> exec_all ds c')"

text \<open>
  \<open>CREATE POLICY name ON table FOR command TO authenticated USING (expression)\<close>, with
  the tables that the expression's sub-selects read.
\<close>

definition POLICY ::
  "string \<Rightarrow> relation \<Rightarrow> command \<Rightarrow> relation list \<Rightarrow>
     (session \<Rightarrow> database \<Rightarrow> row \<Rightarrow> bool option) \<Rightarrow> ddl" where
  "POLICY n t cmd reads e =
     CREATE_POLICY \<lparr>policy_on = t, policy_name = n, policy_for = cmd, policy_reads = reads,
       policy_expr = e\<rparr>"

text \<open>The four policies of \<open>user_profiles\<close>, dropped and created by both migrations.\<close>

definition user_profiles_policies :: "ddl list" where
  "user_profiles_policies =
     [DROP_POLICY_IF_EXISTS ''Users can view their own profile'' USER_PROFILES,
      DROP_POLICY_IF_EXISTS ''Users can update their own profile'' USER_PROFILES,
      DROP_POLICY_IF_EXISTS ''Admins can view all profiles'' USER_PROFILES,
      DROP_POLICY_IF_EXISTS ''Admins can update all profiles'' USER_PROFILES,
      POLICY ''Users can view their own profile'' USER_PROFILES SELECT []
        (on_profile own_profile),
      POLICY ''Users can update their own profile'' USER_PROFILES UPDATE []
        (on_profile own_profile),
      POLICY ''Admins can view all profiles'' USER_PROFILES SELECT [USER_PROFILES]
        (on_profile admin_profile),
      POLICY ''Admins can update all profiles'' USER_PROFILES UPDATE [USER_PROFILES]
        (on_profile admin_profile)]"

definition migration_054401 :: "ddl list" where
  "migration_054401 =
     user_profiles_policies @
     [CREATE_OR_REPLACE_FUNCTION ''create_user_profile'' create_user_profile_054401,
      DROP_TRIGGER_IF_EXISTS ''create_user_profile_trigger'',
      CREATE_TRIGGER ''create_user_profile_trigger'' ''create_user_profile'',
      DROP_POLICY_IF_EXISTS ''Users can view their own registrations'' REGISTRATIONS,
      DROP_POLICY_IF_EXISTS ''Users can insert their own registrations'' REGISTRATIONS,
      DROP_POLICY_IF_EXISTS ''Users can update their own registrations'' REGISTRATIONS,
      DROP_POLICY_IF_EXISTS ''Users can delete their own registrations'' REGISTRATIONS,
      POLICY ''Users can view their own registrations'' REGISTRATIONS SELECT [AUTH_USERS]
        (on_registration own_054401),
      POLICY ''Users can insert their own registrations'' REGISTRATIONS INSERT [AUTH_USERS]
        (on_registration own_054401),
      POLICY ''Users can update their own registrations'' REGISTRATIONS UPDATE [AUTH_USERS]
        (on_registration own_054401),
      POLICY ''Users can delete their own registrations'' REGISTRATIONS DELETE [AUTH_USERS]
        (on_registration own_054401),
      POLICY ''Admins can view all registrations'' REGISTRATIONS SELECT
        [AUTH_USERS, USER_PROFILES] (on_registration admin_054401)]"

definition migration_054800 :: "ddl list" where
  "migration_054800 =
     [CREATE_OR_REPLACE_FUNCTION ''create_user_profile'' create_user_profile_054800,
      DROP_TRIGGER_IF_EXISTS ''create_user_profile_trigger'',
      CREATE_TRIGGER ''create_user_profile_trigger'' ''create_user_profile'',
      ENABLE_ROW_LEVEL_SECURITY USER_PROFILES] @
     user_profiles_policies @
     [ENABLE_ROW_LEVEL_SECURITY REGISTRATIONS,
      DROP_POLICY_IF_EXISTS ''Users can view their own registrations'' REGISTRATIONS,
      DROP_POLICY_IF_EXISTS ''Users can insert their own registrations'' REGISTRATIONS,
      DROP_POLICY_IF_EXISTS ''Users can update their own registrations'' REGISTRATIONS,
      DROP_POLICY_IF_EXISTS ''Users can delete their own registrations'' REGISTRATIONS,
      DROP_POLICY_IF_EXISTS ''Admins can view all registrations'' REGISTRATIONS,
      POLICY ''Users can view their own registrations'' REGISTRATIONS SELECT [USER_PROFILES]
        (on_registration own_054800),
      POLICY ''Users can insert their own registrations'' REGISTRATIONS INSERT [USER_PROFILES]
        (on_registration own_054800),
      POLICY ''Users can update their own registrations'' REGISTRATIONS UPDATE [USER_PROFILES]
        (on_registration own_054800),
      POLICY ''Users can delete their own registrations'' REGISTRATIONS DELETE [USER_PROFILES]
        (on_registration own_054800),
      POLICY ''Admins can view all registrations'' REGISTRATIONS SELECT
        [USER_PROFILES, USER_PROFILES] (on_registration admin_054800)]"

definition empty_catalog :: catalog where
  "empty_catalog = \<lparr>rls_enabled = [], policies = [], routines = [], triggers = []\<rparr>"

text \<open>The catalog after both migrations (\<open>empty_catalog\<close> if one of them fails).\<close>

definition migrated :: catalog where
  "migrated =
     (case exec_all (migration_054401 @ migration_054800) empty_catalog of
        Inl e \<Rightarrow> empty_catalog | Inr c \<Rightarrow> c)"

subsection \<open>A statement under row-level security\<close>

text \<open>
  When a statement of a role that is under row-level security names a table with
  row-level security enabled, the rewriter adds the expressions of the table's policies
  for the command. If they hold sub-selects, it rewrites the tables these read in the
  same way (as \<open>SELECT\<close>), and it raises "infinite recursion detected in policy for
  relation" (SQLSTATE 42P17) when it comes back to a table whose policies it is still
  adding. This is decided from the policies alone, before any row is read.
\<close>

definition reads_of :: "catalog \<Rightarrow> command \<Rightarrow> relation \<Rightarrow> relation list" where
  "reads_of c cmd t =
     concat (map policy_reads
       (filter (\<lambda>p. policy_on p = t \<and> policy_for p = cmd) (policies c)))"

fun first_some :: "'a option list \<Rightarrow> 'a option" where
  "first_some [] = None"
| "first_some (Some x # xs) = Some x"
| "first_some (None # xs) = first_some xs"

function rls_recursion ::
  "catalog \<Rightarrow> relation list \<Rightarrow> command \<Rightarrow> relation \<Rightarrow> relation option" where
  "rls_recursion c active cmd t =
     (if t \<notin> set (rls_enabled c) \<or> reads_of c cmd t = [] then None
      else if t \<in> set active then Some t
      else first_some (map (\<lambda>u. rls_recursion c (t # active) SELECT u) (reads_of c cmd t)))"
  by pat_completeness auto
termination
proof (relation "measure (\<lambda>(c, active, cmd, t). card (- set active))")
  show "wf (measure (\<lambda>(c, active, cmd, t). card (- set active)))"
    by simp
next
  fix c :: catalog and active :: "relation list" and cmd :: command and t u :: relation
  assume "\<not> (t \<notin> set (rls_enabled c) \<or> reads_of c cmd t = [])" and n: "t \<notin> set active"
  have u: "(UNIV :: relation set) = {REGISTRATIONS, USER_PROFILES, AUTH_USERS}"
    by (auto intro: relation.exhaust)
  have "finite (UNIV :: relation set)"
    by (subst u) simp
  then have f: "finite (- set active)"
    by (rule finite_subset[OF subset_UNIV])
  from n have "- set (t # active) \<subset> - set active"
    by auto
  with f have "card (- set (t # active)) < card (- set active)"
    by (rule psubset_card_mono)
  then show "((c, t # active, SELECT, u), (c, active, cmd, t))
      \<in> measure (\<lambda>(c, active, cmd, t). card (- set active))"
    by simp
qed

declare rls_recursion.simps [simp del]

text \<open>
  Whether a permissive policy of the table for the command holds on a row, and the rows
  of \<open>user_profiles\<close> that a sub-select of the session sees.
\<close>

definition policy_passes ::
  "catalog \<Rightarrow> command \<Rightarrow> relation \<Rightarrow> session \<Rightarrow> database \<Rightarrow> row \<Rightarrow> bool" where
  "policy_passes c cmd t s db w \<longleftrightarrow>
     list_ex (\<lambda>p. policy_on p = t \<and> policy_for p = cmd \<and> policy_expr p s db w = Some True)
       (policies c)"

definition visible_profiles :: "catalog \<Rightarrow> session \<Rightarrow> database \<Rightarrow> profiles" where
  "visible_profiles c s db =
     (if USER_PROFILES \<in> set (rls_enabled c)
      then (\<lambda>i. case user_profiles db i of
                  None \<Rightarrow> None
                | Some p \<Rightarrow>
                    if policy_passes c SELECT USER_PROFILES s db (profile_row i p)
                    then Some p else None)
      else user_profiles db)"

datatype rewrite_error = infinite_recursion relation

text \<open>
  A command of the session on a row of \<open>registrations\<close>: the error of the rewriter, or
  whether the command is let through: with row-level security enabled, when one of the
  (permissive) policies for the command evaluates to true on the row, its sub-selects
  seeing the profiles that the policies of \<open>user_profiles\<close> show.
\<close>

definition access ::
  "catalog \<Rightarrow> command \<Rightarrow> session \<Rightarrow> database \<Rightarrow> registration \<Rightarrow> rewrite_error + bool" where
  "access c cmd s db r =
     (case rls_recursion c [] cmd REGISTRATIONS of
        Some t \<Rightarrow> Inl (infinite_recursion t)
      | None \<Rightarrow>
          Inr (if REGISTRATIONS \<in> set (rls_enabled c)
               then policy_passes c cmd REGISTRATIONS s
                      (db\<lparr>user_profiles := visible_profiles c s db\<rparr>) (registration_row r)
               else True))"

definition granted :: "catalog \<Rightarrow> command \<Rightarrow> session \<Rightarrow> database \<Rightarrow> registration \<Rightarrow> bool" where
  "granted c cmd s db r \<longleftrightarrow> access c cmd s db r = Inr True"

subsection \<open>Creating an account\<close>

text \<open>
  \<open>INSERT INTO auth.users\<close>, with its row-level \<open>AFTER INSERT\<close> triggers run in turn on
  the new row. A trigger that raises aborts the statement, and nothing is changed.
\<close>

fun fire_triggers ::
  "trigger_fn list \<Rightarrow> sql_error option \<Rightarrow> auth_user \<Rightarrow> profiles \<times> notice list \<Rightarrow>
     sql_error + profiles \<times> notice list" where
  "fire_triggers [] fault NEW acc = Inr acc"
| "fire_triggers (f # fs) fault NEW (tbl, ns) =
     (let r = f fault NEW tbl
      in case returned r of
           Inl e \<Rightarrow> Inl e
         | Inr u \<Rightarrow> fire_triggers fs fault NEW (profiles_after r, ns @ raised r))"

definition trigger_fns :: "catalog \<Rightarrow> trigger_fn list" where
  "trigger_fns c = List.map_filter (\<lambda>(n, f). map_of (routines c) f) (triggers c)"

definition insert_auth_user ::
  "catalog \<Rightarrow> sql_error option \<Rightarrow> auth_user \<Rightarrow> database \<Rightarrow> sql_error + database" where
  "insert_auth_user c fault NEW db =
     (if auth_users db (users_id NEW) \<noteq> None then Inl unique_violation
      else case fire_triggers (trigger_fns c) fault NEW (user_profiles db, notices db) of
             Inl e \<Rightarrow> Inl e
           | Inr (tbl, ns) \<Rightarrow>
               Inr (db\<lparr>auth_users := (auth_users db)(users_id NEW \<mapsto> NEW),
                       user_profiles := tbl, notices := ns\<rparr>))"

section \<open>The properties, as the specification words them\<close>


text \<open>A field is present when it holds something other than white space.\<close>

definition present :: "jsstring \<Rightarrow> bool" where
  "present s \<longleftrightarrow> trim s \<noteq> []"



text \<open>
  The substring table of the specification, in its listed order: the substrings of a
  row, where its message goes, and the message.
\<close>

datatype target = on_email | on_password | on_general

definition substring_table :: "(string list \<times> target \<times> string) list" where
  "substring_table =
     [([''Invalid login credentials''], on_general, ''Invalid email or password''),
      ([''User already registered'', ''already been registered''], on_email,
         ''An account with this email already exists''),
      ([''Password should be at least''], on_password,
         ''Password must be at least 6 characters long''),
      ([''Unable to validate email address''], on_email,
         ''Please enter a valid email address''),
      ([''Email not confirmed''], on_general,
         ''Please check your email and confirm your account before signing in'')]"

fun only_error :: "target \<Rightarrow> jsstring \<Rightarrow> FormErrors" where
  "only_error on_email s = no_errors\<lparr>email_error := Some s\<rparr>"
| "only_error on_password s = no_errors\<lparr>password_error := Some s\<rparr>"
| "only_error on_general s = no_errors\<lparr>general_error := Some s\<rparr>"

definition row_matches :: "jsstring option \<Rightarrow> string list \<times> target \<times> string \<Rightarrow> bool" where
  "row_matches m row \<longleftrightarrow> list_ex (message_includes m) (fst row)"

text \<open>A message is absent when it is undefined or empty.\<close>

definition table_errors :: "jsstring option \<Rightarrow> FormErrors" where
  "table_errors m =
     (case find (row_matches m) substring_table of
        Some (subs, t, msg) \<Rightarrow> only_error t (js msg)
      | None \<Rightarrow>
          only_error on_general
            (case m of
               None \<Rightarrow> js ''An unexpected error occurred. Please try again.''
             | Some s \<Rightarrow>
                 if s = [] then js ''An unexpected error occurred. Please try again.''
                 else s))"

text \<open>Closing the modal: the parent renders it with \<open>isOpen = false\<close>.\<close>

definition close_modal :: "AuthModal \<Rightarrow> AuthModal" where
  "close_modal st = set_props False (initialMode st) st"

definition closing_resets_everything :: "AuthModal \<Rightarrow> bool" where
  "closing_resets_everything st \<longleftrightarrow>
     formData (close_modal st) = empty_form \<and>
     errors (close_modal st) = no_errors \<and>
     \<not> isSuccess (close_modal st) \<and>
     \<not> showPassword (close_modal st) \<and>
     \<not> showConfirmPassword (close_modal st) \<and>
     mode (close_modal st) = initialMode st"

text \<open>The states the component can be in: any run of events from its mounting.\<close>

definition reachable :: "AuthModal \<Rightarrow> bool" where
  "reachable st \<longleftrightarrow> (\<exists>opn im es. st = run es (mount opn im))"

text \<open>No message held in the errors is the empty string.\<close>

definition no_empty_message :: "FormErrors \<Rightarrow> bool" where
  "no_empty_message e \<longleftrightarrow>
     email_error e \<noteq> Some [] \<and> password_error e \<noteq> Some [] \<and> fullName_error e \<noteq> Some [] \<and>
     confirmPassword_error e \<noteq> Some [] \<and> general_error e \<noteq> Some []"

text \<open>
  One submission in flight: at most one remote call is pending, the submitting flag is
  set exactly while one is, and none is pending while the success display shows.
\<close>

definition in_flight_inv :: "AuthModal \<Rightarrow> bool" where
  "in_flight_inv st \<longleftrightarrow>
     length (pending st) \<le> 1 \<and> (isSubmitting st \<longleftrightarrow> pending st \<noteq> []) \<and>
     (isSuccess st \<longrightarrow> pending st = [])"

text \<open>
  The success path: at most one success since the modal was last opened, after which the
  success display stays while the modal is open; every success has set one timer, and
  every timer that ran has called \<open>onClose\<close> once.
\<close>

definition success_inv :: "AuthModal \<Rightarrow> bool" where
  "success_inv st \<longleftrightarrow>
     successes st \<le> 1 \<and>
     (successes st = 1 \<longrightarrow> pending st = [] \<and> (isOpen st \<longrightarrow> isSuccess st)) \<and>
     timerCloses st + length (timers st) = successTotal st \<and>
     timerCloses st \<le> closeCalls st"

text \<open>Who the specification lets at a registration, for every command.\<close>

definition is_registrant :: "session \<Rightarrow> registration \<Rightarrow> bool" where
  "is_registrant s r \<longleftrightarrow> user_id r = Some (uid s)"

definition email_matches :: "session \<Rightarrow> database \<Rightarrow> registration \<Rightarrow> bool" where
  "email_matches s db r \<longleftrightarrow>
     (case own_profile_email s db of None \<Rightarrow> False | Some e \<Rightarrow> user_email r = Some e)"

definition is_admin :: "session \<Rightarrow> database \<Rightarrow> bool" where
  "is_admin s db \<longleftrightarrow>
     own_profile_role s db = Some ''admin'' \<or>
     own_profile_email s db = Some ''admin@showgo.com'' \<or>
     own_profile_email s db = Some ''support@showgo.com''"

definition may_access :: "session \<Rightarrow> database \<Rightarrow> registration \<Rightarrow> bool" where
  "may_access s db r \<longleftrightarrow> is_registrant s r \<or> email_matches s db r \<or> is_admin s db"

text \<open>
  For comparison, the catalog with the two policies of \<open>user_profiles\<close> dropped whose
  expression reads \<open>user_profiles\<close> itself.
\<close>

definition without_admin_profile_policies :: catalog where
  "without_admin_profile_policies =
     (case exec_all
        [DROP_POLICY_IF_EXISTS ''Admins can view all profiles'' USER_PROFILES,
         DROP_POLICY_IF_EXISTS ''Admins can update all profiles'' USER_PROFILES] migrated of
        Inl e \<Rightarrow> migrated | Inr c \<Rightarrow> c)"

section \<open>Example data\<close>

definition ada :: auth_user where
  "ada = \<lparr>users_id = 7, users_email = Some ''ada@example.com'',
     raw_user_meta_data = [''full_name'' \<mapsto> ''Ada'']\<rparr>"

definition empty_db :: database where
  "empty_db = \<lparr>auth_users = Map.empty, user_profiles = Map.empty, notices = []\<rparr>"

text \<open>
  A database with the profile of an administrator (identity 1), and the registration of
  identity 2 with its session.
\<close>

definition admin_db :: database where
  "admin_db =
     \<lparr>auth_users = Map.empty,
      user_profiles =
        [1 \<mapsto> \<lparr>full_name = Some ''Root'', profile_email = Some ''root@example.com'',
                role = Some ''admin''\<rparr>],
      notices = []\<rparr>"

definition bob_session :: session where
  "bob_session = \<lparr>uid = 2, jwt_role = Some ''authenticated''\<rparr>"

definition bobs_registration :: registration where
  "bobs_registration = \<lparr>user_id = Some 2, user_email = Some ''bob@example.com''\<rparr>"

section \<open>Verification\<close>

subsection \<open>The regular expression and the validation rules\<close>





lemma dropWhile_all_iff: "(\<forall>x\<in>set (dropWhile P s). P x) \<longleftrightarrow> (\<forall>x\<in>set s. P x)"
proof (cases "dropWhile P s")
  case Nil
  then have "\<forall>x\<in>set s. P x" by simp
  then show ?thesis unfolding Nil by simp
next
  case (Cons y ys)
  then have "\<not> P y" using hd_dropWhile[of P s] by simp
  moreover have "y \<in> set s" using Cons set_dropWhileD[of y P s] by simp
  ultimately show ?thesis using Cons by auto
qed

lemma trim_empty_iff: "trim s = [] \<longleftrightarrow> list_all is_space s"
  by (simp add: trim_def dropWhile_all_iff list_all_iff)


lemma js_nonempty: "s \<noteq> [] \<Longrightarrow> js s \<noteq> []"
  by (simp add: js_def)



lemma validate_fullName_None: "validate_fullName n = None \<longleftrightarrow> present n \<and> 2 \<le> length n"
  by (auto simp: validate_fullName_def present_def)






subsection \<open>Submission and validation\<close>


text \<open>The unfolding rules that evaluate a run of the component on concrete input.\<close>

lemmas eval_modal =
  js_def mount_def empty_form_def no_errors_def input_rendered_def form_rendered_def
  submit_disabled_def handleInputChange_def truthy_def Let_def handleSubmit_def
  validateForm_def newErrors_def validate_email_def validate_password_def
  validate_fullName_def validate_confirmPassword_def email_re_def not_space_at_def
  is_space_def trim_def


subsection \<open>The length of the full name\<close>

lemma rev_split: "x = rev (dropWhile P (rev x)) @ rev (takeWhile P (rev x))"
proof -
  have "rev (takeWhile P (rev x) @ dropWhile P (rev x)) = rev (rev x)"
    by (simp only: takeWhile_dropWhile_id)
  then show ?thesis
    by (simp only: rev_append rev_rev_ident)
qed

lemma trim_decomp:
  "s = takeWhile is_space s @ trim s @ rev (takeWhile is_space (rev (dropWhile is_space s)))"
proof -
  have "dropWhile is_space s =
      trim s @ rev (takeWhile is_space (rev (dropWhile is_space s)))"
    unfolding trim_def by (rule rev_split)
  moreover have "s = takeWhile is_space s @ dropWhile is_space s"
    by simp
  ultimately show ?thesis by simp
qed

lemma filter_takeWhile_space: "filter (\<lambda>c. \<not> is_space c) (takeWhile is_space s) = []"
  by (induction s) auto

lemma nonspace_count_le_trim:
  "length (filter (\<lambda>c. \<not> is_space c) n) \<le> length (trim n)"
proof -
  let ?a = "takeWhile is_space n"
  let ?b = "takeWhile is_space (rev (dropWhile is_space n))"
  have "filter (\<lambda>c. \<not> is_space c) n =
        filter (\<lambda>c. \<not> is_space c) (?a @ trim n @ rev ?b)"
    using trim_decomp[of n] by simp
  also have "\<dots> = filter (\<lambda>c. \<not> is_space c) (trim n)"
    by (simp add: filter_takeWhile_space flip: rev_filter)
  finally show ?thesis by simp
qed

lemma trim_shorter: "n \<noteq> trim n \<Longrightarrow> length (trim n) < length n"
proof -
  assume a: "n \<noteq> trim n"
  let ?a = "takeWhile is_space n"
  let ?b = "rev (takeWhile is_space (rev (dropWhile is_space n)))"
  have d: "n = ?a @ trim n @ ?b" by (rule trim_decomp)
  have "?a \<noteq> [] \<or> ?b \<noteq> []"
  proof (rule ccontr)
    assume "\<not> (?a \<noteq> [] \<or> ?b \<noteq> [])"
    then have "?a @ trim n @ ?b = trim n" by simp
    with d a show False by simp
  qed
  then have "length (trim n) < length (?a @ trim n @ ?b)" by auto
  with d show ?thesis by simp
qed

text \<open>
  Claim C10. In registration mode the check of the full name's length counts the
  untrimmed string: the name passes exactly when it is not blank and its untrimmed length
  is at least 2. So a name whose trimmed content is one character and that is padded with
  white space passes, although fewer than 2 of its characters are not white space; a name
  of white space only gets "Full name is required". The name \<open>" A"\<close> passes.
\<close>

theorem fullName_length_untrimmed:
  "(validate_fullName n = None \<longleftrightarrow> present n \<and> 2 \<le> length n) \<and>
   (length (trim n) = 1 \<and> n \<noteq> trim n \<longrightarrow>
      validate_fullName n = None \<and> length (filter (\<lambda>c. \<not> is_space c) n) < 2) \<and>
   (list_all is_space n \<longrightarrow> validate_fullName n = Some (js ''Full name is required'')) \<and>
   validate_fullName (js '' A'') = None \<and>
   fullName_error (newErrors signup fd) = validate_fullName (fullName fd)"
proof -
  have a: "validate_fullName n = None \<longleftrightarrow> present n \<and> 2 \<le> length n"
    by (rule validate_fullName_None)
  have b: "validate_fullName n = None \<and> length (filter (\<lambda>c. \<not> is_space c) n) < 2"
    if h: "length (trim n) = 1 \<and> n \<noteq> trim n"
  proof -
    from h have "trim n \<noteq> []" by auto
    moreover from h trim_shorter[of n] have "2 \<le> length n" by simp
    ultimately have "validate_fullName n = None" by (simp add: a present_def)
    moreover from h nonspace_count_le_trim[of n]
    have "length (filter (\<lambda>c. \<not> is_space c) n) < 2" by simp
    ultimately show ?thesis by simp
  qed
  have c: "validate_fullName n = Some (js ''Full name is required'')" if "list_all is_space n"
    using that by (simp add: validate_fullName_def trim_empty_iff)
  have d: "validate_fullName (js '' A'') = None"
    by (simp add: validate_fullName_def js_def trim_def is_space_def)
  have e: "fullName_error (newErrors signup fd) = validate_fullName (fullName fd)"
    by (simp add: newErrors_def)
  from a b c d e show ?thesis by blast
qed

text \<open>
  C10 on \<open>" A"\<close> and on two blanks, and a signup form with the name \<open>" A"\<close> that passes
  \<open>validateForm\<close> as a whole.
\<close>

theorem fullName_length_untrimmed_witness:
  "length (trim (js '' A'')) = 1 \<and> js '' A'' \<noteq> trim (js '' A'') \<and>
   validate_fullName (js '' A'') = None \<and>
   list_all is_space (js ''  '') \<and>
   validate_fullName (js ''  '') = Some (js ''Full name is required'') \<and>
   validateForm signup \<lparr>email = js ''a@b.c'', password = js ''abcdef'', fullName = js '' A'',
     confirmPassword = js ''abcdef''\<rparr>"
proof -
  have h1: "length (trim (js '' A'')) = 1 \<and> js '' A'' \<noteq> trim (js '' A'')"
    by (simp add: js_def trim_def is_space_def)
  have h2: "list_all is_space (js ''  '')"
    by (simp add: js_def is_space_def)
  have v: "validateForm signup \<lparr>email = js ''a@b.c'', password = js ''abcdef'',
     fullName = js '' A'', confirmPassword = js ''abcdef''\<rparr>"
    using fullName_length_untrimmed[of "js '' A''" "\<lparr>email = js ''a@b.c'',
      password = js ''abcdef'', fullName = js '' A'', confirmPassword = js ''abcdef''\<rparr>"]
    by (simp add: validateForm_def newErrors_def no_errors_def validate_email_def
      validate_password_def validate_confirmPassword_def js_def trim_def is_space_def
      email_re_def not_space_at_def)
  show ?thesis
    using fullName_length_untrimmed[of "js '' A''"] fullName_length_untrimmed[of "js ''  ''"]
      h1 h2 v
    by simp
qed

subsection \<open>Switching the mode\<close>

text \<open>
  Claim C3. For every state, \<open>switchMode\<close> turns signin into signup and signup into
  signin, empties the password, the confirm-password and the full name, clears every
  error (the four of the fields and the general one), and keeps the email as it is. With
  the modal open and the form shown, the mode switch of the form runs \<open>switchMode\<close>.
\<close>

theorem switchMode_clears:
  "mode (switchMode st) = (if mode st = signin then signup else signin) \<and>
   mode (switchMode st) \<noteq> mode st \<and>
   password (formData (switchMode st)) = [] \<and>
   confirmPassword (formData (switchMode st)) = [] \<and>
   fullName (formData (switchMode st)) = [] \<and>
   email_error (errors (switchMode st)) = None \<and>
   password_error (errors (switchMode st)) = None \<and>
   fullName_error (errors (switchMode st)) = None \<and>
   confirmPassword_error (errors (switchMode st)) = None \<and>
   general_error (errors (switchMode st)) = None \<and>
   email (formData (switchMode st)) = email (formData st) \<and>
   (form_rendered st \<longrightarrow> step SwitchMode st = switchMode st)"
  by (cases "mode st") (simp_all add: switchMode_def no_errors_def)

text \<open>
  C3 on a run: after a failed submission with the email \<open>a@b\<close>, switching the mode leaves
  no error and no field but the email.
\<close>

theorem switchMode_clears_witness:
  "form_rendered (run [Input f_email (js ''a@b''), Input f_password (js ''hunter1''), Submit]
     (mount True signin)) \<and>
   errors (run [Input f_email (js ''a@b''), Input f_password (js ''hunter1''), Submit]
     (mount True signin)) \<noteq> no_errors \<and>
   errors (run [Input f_email (js ''a@b''), Input f_password (js ''hunter1''), Submit, SwitchMode]
     (mount True signin)) = no_errors \<and>
   formData (run [Input f_email (js ''a@b''), Input f_password (js ''hunter1''), Submit, SwitchMode]
     (mount True signin)) = empty_form\<lparr>email := js ''a@b''\<rparr> \<and>
   mode (run [Input f_email (js ''a@b''), Input f_password (js ''hunter1''), Submit, SwitchMode]
     (mount True signin)) = signup"
proof -
  let ?s = "run [Input f_email (js ''a@b''), Input f_password (js ''hunter1''), Submit]
     (mount True signin)"
  have r: "run [Input f_email (js ''a@b''), Input f_password (js ''hunter1''), Submit, SwitchMode]
     (mount True signin) = step SwitchMode ?s"
    by simp
  have f: "form_rendered ?s" and m: "mode ?s = signin"
    and e: "email (formData ?s) = js ''a@b''" and n: "errors ?s \<noteq> no_errors"
    by (simp_all add: eval_modal)
  have x: "formData (switchMode ?s) = empty_form\<lparr>email := email (formData (switchMode ?s))\<rparr>"
    by (simp add: switchMode_def empty_form_def)
  have y: "errors (switchMode ?s) = no_errors"
    by (simp add: switchMode_def)
  show ?thesis
    unfolding r using switchMode_clears[of ?s] f m e n x y by simp
qed

subsection \<open>Invariants of runs\<close>

lemma run_invariant:
  assumes "P st" and "\<And>e s. P s \<Longrightarrow> P (step e s)"
  shows "P (run es st)"
  using assms(1)
proof (induction es arbitrary: st)
  case Nil
  then show ?case by simp
next
  case (Cons e es)
  then show ?case by (simp add: assms(2))
qed

lemma reachable_invariant:
  assumes "reachable st" and "\<And>opn im. P (mount opn im)" and "\<And>e s. P s \<Longrightarrow> P (step e s)"
  shows "P st"
proof -
  from assms(1) obtain opn im es where "st = run es (mount opn im)"
    unfolding reachable_def by blast
  then show ?thesis
    using run_invariant[of P "mount opn im" es] assms(2,3) by simp
qed

lemma no_empty_no_errors: "no_empty_message no_errors"
  by (simp add: no_empty_message_def no_errors_def)

lemma no_empty_newErrors: "no_empty_message (newErrors m fd)"
  by (simp add: no_empty_message_def newErrors_def validate_email_def validate_password_def
      validate_fullName_def validate_confirmPassword_def js_def)

lemma no_empty_remote: "no_empty_message (remote_error_errors m)"
  by (cases m) (simp_all add: no_empty_message_def remote_error_errors_def no_errors_def
      js_def truthy_def)

lemma no_empty_clear: "no_empty_message e \<Longrightarrow> no_empty_message (clear_field_error f e)"
  by (cases f) (simp_all add: no_empty_message_def)

lemma no_empty_step: "no_empty_message (errors s) \<Longrightarrow> no_empty_message (errors (step e s))"
proof (cases e)
  case (Props opn im)
  assume "no_empty_message (errors s)"
  then show ?thesis
    by (simp add: Props set_props_def reset_effect_def Let_def no_empty_no_errors)
next
  case (Input f v)
  assume "no_empty_message (errors s)"
  then show ?thesis
    by (simp add: Input handleInputChange_def Let_def no_empty_clear)
next
  case Submit
  assume "no_empty_message (errors s)"
  then show ?thesis
    by (simp add: Submit handleSubmit_def no_empty_no_errors no_empty_newErrors)
next
  case SwitchMode
  assume "no_empty_message (errors s)"
  then show ?thesis
    by (simp add: SwitchMode switchMode_def no_empty_no_errors)
next
  case (Settle i r)
  assume a: "no_empty_message (errors s)"
  have "no_empty_message (no_errors\<lparr>general_error :=
      Some (js ''Connection error. Please check your internet and try again.'')\<rparr>)"
    by (simp add: no_empty_message_def no_errors_def js_def)
  with a show ?thesis
    by (simp add: Settle settle_def Let_def no_empty_remote split: outcome.split option.split)
qed (simp_all add: onClose_def handleBackdropClick_def handleEscKey_def fire_timer_def)

lemma reachable_no_empty: "reachable st \<Longrightarrow> no_empty_message (errors st)"
  by (rule reachable_invariant[where P = "\<lambda>s. no_empty_message (errors s)"])
    (simp_all add: no_empty_step mount_def no_empty_no_errors)

subsection \<open>Editing a field\<close>

lemma get_set_field: "get_field g (set_field f v fd) = (if g = f then v else get_field g fd)"
  by (cases f; cases g) simp_all

lemma field_error_clear:
  "field_error g (clear_field_error f e) = (if g = f then None else field_error g e)"
  by (cases f; cases g) simp_all

lemma general_error_clear: "general_error (clear_field_error f e) = general_error e"
  by (cases f) simp_all

lemma not_truthy_no_empty:
  "no_empty_message e \<Longrightarrow> \<not> truthy (field_error f e) \<Longrightarrow> field_error f e = None"
  by (cases f) (auto simp: no_empty_message_def truthy_def split: option.splits)

text \<open>
  Claim C9. For every field, every typed value and every state, \<open>handleInputChange\<close>
  stores exactly the typed value in the edited field and leaves the other fields alone;
  it leaves the errors of every other field and the general error unchanged; and the
  edited field shows no error afterwards. In every state the component can reach (where
  no message is the empty string), the edited field's error is gone altogether. An edit
  of a rendered input runs \<open>handleInputChange\<close>.
\<close>

theorem edit_clears_own_error:
  "get_field f (formData (handleInputChange f v st)) = v \<and>
   (\<forall>g. g \<noteq> f \<longrightarrow>
      get_field g (formData (handleInputChange f v st)) = get_field g (formData st) \<and>
      field_error g (errors (handleInputChange f v st)) = field_error g (errors st)) \<and>
   general_error (errors (handleInputChange f v st)) = general_error (errors st) \<and>
   \<not> truthy (field_error f (errors (handleInputChange f v st))) \<and>
   (reachable st \<longrightarrow> field_error f (errors (handleInputChange f v st)) = None) \<and>
   (input_rendered f st \<longrightarrow> step (Input f v) st = handleInputChange f v st)"
proof -
  let ?st' = "handleInputChange f v st"
  have fd: "formData ?st' = set_field f v (formData st)"
    by (simp add: handleInputChange_def Let_def)
  have er: "errors ?st' =
      (if truthy (field_error f (errors st)) then clear_field_error f (errors st) else errors st)"
    by (simp add: handleInputChange_def Let_def)
  have a: "get_field f (formData ?st') = v"
    by (simp add: fd get_set_field)
  have b: "\<forall>g. g \<noteq> f \<longrightarrow>
      get_field g (formData ?st') = get_field g (formData st) \<and>
      field_error g (errors ?st') = field_error g (errors st)"
    by (simp add: fd er get_set_field field_error_clear)
  have c: "general_error (errors ?st') = general_error (errors st)"
    by (simp add: er general_error_clear)
  have d: "\<not> truthy (field_error f (errors ?st'))"
    by (simp add: er field_error_clear) (simp add: truthy_def)
  have e: "field_error f (errors ?st') = None" if "reachable st"
  proof (cases "truthy (field_error f (errors st))")
    case True
    then show ?thesis by (simp add: er field_error_clear)
  next
    case False
    then have "errors ?st' = errors st" by (simp add: er)
    moreover have "field_error f (errors st) = None"
      using reachable_no_empty[OF that] False by (rule not_truthy_no_empty)
    ultimately show ?thesis by simp
  qed
  from a b c d e show ?thesis by simp
qed

text \<open>
  C9 on a run: a failed submission sets the email and password errors; editing the email
  then clears the email error only.
\<close>

theorem edit_clears_own_error_witness:
  "reachable (run [Input f_email (js ''a@b''), Submit] (mount True signin)) \<and>
   errors (run [Input f_email (js ''a@b''), Submit] (mount True signin)) =
     no_errors\<lparr>email_error := Some (js ''Please enter a valid email address''),
       password_error := Some (js ''Password is required'')\<rparr> \<and>
   errors (run [Input f_email (js ''a@b''), Submit, Input f_email (js ''a@b.c'')]
       (mount True signin)) =
     no_errors\<lparr>password_error := Some (js ''Password is required'')\<rparr> \<and>
   formData (run [Input f_email (js ''a@b''), Submit, Input f_email (js ''a@b.c'')]
       (mount True signin)) = empty_form\<lparr>email := js ''a@b.c''\<rparr>"
proof -
  define s where "s = run [Input f_email (js ''a@b''), Submit] (mount True signin)"
  define t where "t = handleInputChange f_email (js ''a@b.c'') s"
  have r: "run [Input f_email (js ''a@b''), Submit, Input f_email (js ''a@b.c'')]
       (mount True signin) = step (Input f_email (js ''a@b.c'')) s"
    unfolding s_def by simp
  have re: "reachable s"
    unfolding reachable_def s_def by blast
  have i: "input_rendered f_email s"
    unfolding s_def by (simp add: eval_modal)
  have e: "errors s = no_errors\<lparr>email_error := Some (js ''Please enter a valid email address''),
       password_error := Some (js ''Password is required'')\<rparr>"
    unfolding s_def by (simp add: eval_modal)
  have f: "formData s = empty_form\<lparr>email := js ''a@b''\<rparr>"
    unfolding s_def by (simp add: eval_modal)
  note th = edit_clears_own_error[of f_email "js ''a@b.c''" s, folded t_def]
  from th i have st: "step (Input f_email (js ''a@b.c'')) s = t" by blast
  from th re have t2: "field_error f_email (errors t) = None" by blast
  from th have t1: "get_field f_email (formData t) = js ''a@b.c''" by blast
  from th have t4: "general_error (errors t) = general_error (errors s)" by blast
  from th have t3: "g \<noteq> f_email \<Longrightarrow>
      get_field g (formData t) = get_field g (formData s) \<and>
      field_error g (errors t) = field_error g (errors s)" for g by blast
  have "formData t = empty_form\<lparr>email := js ''a@b.c''\<rparr>"
    using t1 t3[of f_password] t3[of f_fullName] t3[of f_confirmPassword]
    by (simp add: f empty_form_def FormData.equality)
  moreover have "errors t = no_errors\<lparr>password_error := Some (js ''Password is required'')\<rparr>"
    using t2 t4 t3[of f_password] t3[of f_fullName] t3[of f_confirmPassword]
    by (simp add: e no_errors_def FormErrors.equality)
  ultimately show ?thesis
    unfolding r st using re e unfolding s_def by blast
qed

subsection \<open>The errors of a remote failure\<close>

lemma remote_error_errors_table: "remote_error_errors m = table_errors m"
  by (cases m)
    (simp_all add: remote_error_errors_def table_errors_def substring_table_def
      row_matches_def truthy_def)

lemma no_row_matches:
  "find (row_matches m) substring_table = None \<longleftrightarrow>
     \<not> message_includes m ''Invalid login credentials'' \<and>
     \<not> message_includes m ''User already registered'' \<and>
     \<not> message_includes m ''already been registered'' \<and>
     \<not> message_includes m ''Password should be at least'' \<and>
     \<not> message_includes m ''Unable to validate email address'' \<and>
     \<not> message_includes m ''Email not confirmed''"
  by (simp add: substring_table_def row_matches_def)

text \<open>
  Claim C2. For every remote error, the errors set are those of the substring table read
  in its listed order (the first row with a substring in the message decides). A message
  with "Invalid login credentials" sets the general error "Invalid email or password" and
  no error of a field; so does "Invalid login credentials for user". A message with
  "already been registered" or "User already registered", once the row before it does not
  apply, sets the email error "An account with this email already exists" and no error
  of the password. When no row has a substring in the message, the general error is the
  message itself, or the fallback when the message is absent (undefined or empty). These
  are the errors of the component after the call has settled with the error.
\<close>

theorem remote_error_by_table:
  "remote_error_errors m = table_errors m \<and>
   (message_includes m ''Invalid login credentials'' \<longrightarrow>
      remote_error_errors m = no_errors\<lparr>general_error := Some (js ''Invalid email or password'')\<rparr>) \<and>
   (\<not> message_includes m ''Invalid login credentials'' \<and>
    (message_includes m ''User already registered'' \<or>
     message_includes m ''already been registered'') \<longrightarrow>
      remote_error_errors m =
        no_errors\<lparr>email_error := Some (js ''An account with this email already exists'')\<rparr> \<and>
      password_error (remote_error_errors m) = None) \<and>
   remote_error_errors (Some (js ''Invalid login credentials for user'')) =
     no_errors\<lparr>general_error := Some (js ''Invalid email or password'')\<rparr> \<and>
   (find (row_matches m) substring_table = None \<longrightarrow>
      remote_error_errors m =
        no_errors\<lparr>general_error :=
          Some (case m of
                  None \<Rightarrow> js ''An unexpected error occurred. Please try again.''
                | Some s \<Rightarrow>
                    if s = [] then js ''An unexpected error occurred. Please try again.''
                    else s)\<rparr>) \<and>
   (i < length (pending st) \<longrightarrow>
      errors (step (Settle i (Resolved (Some (AuthError m)))) st) = remote_error_errors m)"
proof -
  have a: "remote_error_errors (Some (js ''Invalid login credentials for user'')) =
     no_errors\<lparr>general_error := Some (js ''Invalid email or password'')\<rparr>"
    by (simp add: remote_error_errors_def message_includes_def js_def)
  have b: "find (row_matches m) substring_table = None \<longrightarrow>
      remote_error_errors m =
        no_errors\<lparr>general_error :=
          Some (case m of
                  None \<Rightarrow> js ''An unexpected error occurred. Please try again.''
                | Some s \<Rightarrow>
                    if s = [] then js ''An unexpected error occurred. Please try again.''
                    else s)\<rparr>"
    unfolding no_row_matches
    by (cases m) (simp_all add: remote_error_errors_def truthy_def)
  have c: "i < length (pending st) \<longrightarrow>
      errors (step (Settle i (Resolved (Some (AuthError m)))) st) = remote_error_errors m"
    by (simp add: settle_def Let_def)
  have d: "message_includes m ''Invalid login credentials'' \<longrightarrow>
      remote_error_errors m = no_errors\<lparr>general_error := Some (js ''Invalid email or password'')\<rparr>"
    by (simp add: remote_error_errors_def)
  have e: "\<not> message_includes m ''Invalid login credentials'' \<and>
    (message_includes m ''User already registered'' \<or>
     message_includes m ''already been registered'') \<longrightarrow>
      remote_error_errors m =
        no_errors\<lparr>email_error := Some (js ''An account with this email already exists'')\<rparr> \<and>
      password_error (remote_error_errors m) = None"
    by (auto simp add: remote_error_errors_def no_errors_def)
  from remote_error_errors_table[of m] a b c d e show ?thesis
    by blast
qed

text \<open>
  C2 on a run: a sign-in that settles with "Invalid login credentials for user" leaves
  the general error only; the message "User has already been registered" goes to the
  email field; a message that no row matches is shown as it is.
\<close>

theorem remote_error_by_table_witness:
  "message_includes (Some (js ''Invalid login credentials for user''))
     ''Invalid login credentials'' \<and>
   errors (run [Input f_email (js ''a@b.c''), Input f_password (js ''hunter1''), Submit,
       Settle 0 (Resolved (Some (AuthError (Some (js ''Invalid login credentials for user'')))))]
     (mount True signin)) =
     no_errors\<lparr>general_error := Some (js ''Invalid email or password'')\<rparr> \<and>
   remote_error_errors (Some (js ''User has already been registered'')) =
     no_errors\<lparr>email_error := Some (js ''An account with this email already exists'')\<rparr> \<and>
   find (row_matches (Some (js ''Rate limit''))) substring_table = None \<and>
   remote_error_errors (Some (js ''Rate limit'')) =
     no_errors\<lparr>general_error := Some (js ''Rate limit'')\<rparr>"
proof -
  define s where "s = run [Input f_email (js ''a@b.c''), Input f_password (js ''hunter1''),
    Submit] (mount True signin)"
  define m1 where "m1 = Some (js ''Invalid login credentials for user'')"
  define m2 where "m2 = Some (js ''User has already been registered'')"
  define m3 where "m3 = Some (js ''Rate limit'')"
  have r: "run [Input f_email (js ''a@b.c''), Input f_password (js ''hunter1''), Submit,
       Settle 0 (Resolved (Some (AuthError m1)))] (mount True signin) =
     step (Settle 0 (Resolved (Some (AuthError m1)))) s"
    unfolding s_def by simp
  have p: "0 < length (pending s)"
    unfolding s_def by (simp add: eval_modal)
  have i1: "message_includes m1 ''Invalid login credentials''"
    unfolding m1_def by (simp add: message_includes_def js_def)
  have i2: "\<not> message_includes m2 ''Invalid login credentials'' \<and>
    (message_includes m2 ''User already registered'' \<or>
     message_includes m2 ''already been registered'')"
    unfolding m2_def by (simp add: message_includes_def js_def)
  have i3: "find (row_matches m3) substring_table = None"
    unfolding m3_def no_row_matches by (simp add: message_includes_def js_def)
  have j3: "(case m3 of
                  None \<Rightarrow> js ''An unexpected error occurred. Please try again.''
                | Some s \<Rightarrow>
                    if s = [] then js ''An unexpected error occurred. Please try again.''
                    else s) = js ''Rate limit''"
    unfolding m3_def by (simp add: js_def)
  from remote_error_by_table[of m1 0 s] p
  have "errors (step (Settle 0 (Resolved (Some (AuthError m1)))) s) = remote_error_errors m1"
    by blast
  moreover from remote_error_by_table[of m1 0 s] i1
  have "remote_error_errors m1 =
      no_errors\<lparr>general_error := Some (js ''Invalid email or password'')\<rparr>"
    by blast
  ultimately
  have e1: "errors (step (Settle 0 (Resolved (Some (AuthError m1)))) s) =
      no_errors\<lparr>general_error := Some (js ''Invalid email or password'')\<rparr>"
    by (rule trans)
  from remote_error_by_table[of m2 0 s] i2
  have e2: "remote_error_errors m2 =
      no_errors\<lparr>email_error := Some (js ''An account with this email already exists'')\<rparr>"
    by blast
  from remote_error_by_table[of m3 0 s] i3
  have e3: "remote_error_errors m3 = no_errors\<lparr>general_error := Some (js ''Rate limit'')\<rparr>"
    unfolding j3 by blast
  from i1 e1 e2 i3 e3 show ?thesis
    unfolding r[unfolded m1_def] m1_def m2_def m3_def by blast
qed

subsection \<open>Closing the modal\<close>

text \<open>
  Claim C4 as stated fails: after the password has been made visible, closing the modal
  leaves \<open>showPassword\<close> set.
\<close>

theorem closing_resets_everything_counterexample:
  "\<not> closing_resets_everything (run [ToggleShowPassword] (mount True signin))"
  by (simp add: closing_resets_everything_def close_modal_def set_props_def reset_effect_def
      Let_def mount_def form_rendered_def)

text \<open>
  Claim C4, amended. Closing the modal from any open state (the parent renders it with
  \<open>isOpen = false\<close> and an initial mode) empties the four text fields, clears the
  per-field and general errors and the success flag, and sets the mode to the initial
  mode. The two visibility flags and the submitting flag keep their values.
\<close>

theorem closing_resets_form:
  "isOpen st \<longrightarrow>
     formData (set_props False im st) = empty_form \<and>
     errors (set_props False im st) = no_errors \<and>
     \<not> isSuccess (set_props False im st) \<and>
     mode (set_props False im st) = im \<and>
     initialMode (set_props False im st) = im \<and>
     showPassword (set_props False im st) = showPassword st \<and>
     showConfirmPassword (set_props False im st) = showConfirmPassword st \<and>
     isSubmitting (set_props False im st) = isSubmitting st \<and>
     step (Props False im) st = set_props False im st \<and>
     close_modal st = set_props False (initialMode st) st"
  by (simp add: set_props_def reset_effect_def Let_def close_modal_def)

text \<open>
  C4 (amended) on a run: a signup form with an email typed, the password shown and a
  failed submission, then closed.
\<close>

theorem closing_resets_form_witness:
  "isOpen (run [Input f_email (js ''a@b''), ToggleShowPassword, Submit] (mount True signup)) \<and>
   errors (run [Input f_email (js ''a@b''), ToggleShowPassword, Submit] (mount True signup))
     \<noteq> no_errors \<and>
   formData (run [Input f_email (js ''a@b''), ToggleShowPassword, Submit, Props False signup]
     (mount True signup)) = empty_form \<and>
   errors (run [Input f_email (js ''a@b''), ToggleShowPassword, Submit, Props False signup]
     (mount True signup)) = no_errors \<and>
   mode (run [Input f_email (js ''a@b''), ToggleShowPassword, Submit, Props False signup]
     (mount True signup)) = signup \<and>
   showPassword (run [Input f_email (js ''a@b''), ToggleShowPassword, Submit, Props False signup]
     (mount True signup))"
proof -
  define s where "s = run [Input f_email (js ''a@b''), ToggleShowPassword, Submit]
    (mount True signup)"
  have r: "run [Input f_email (js ''a@b''), ToggleShowPassword, Submit, Props False signup]
     (mount True signup) = step (Props False signup) s"
    unfolding s_def by simp
  have o: "isOpen s" and e: "errors s \<noteq> no_errors" and v: "showPassword s"
    unfolding s_def by (simp_all add: eval_modal)
  from closing_resets_form[of s signup] o e v show ?thesis
    unfolding r s_def[symmetric] by simp
qed

subsection \<open>One submission in flight\<close>

lemma length_remove_nth: "i < length xs \<Longrightarrow> length (take i xs @ drop (Suc i) xs) = length xs - 1"
  by (simp add: min_def)

lemma remove_only: "i < length xs \<Longrightarrow> length xs \<le> 1 \<Longrightarrow> take i xs @ drop (Suc i) xs = []"
  by (cases xs) auto

lemma in_flight_mount: "in_flight_inv (mount opn im)"
  by (simp add: in_flight_inv_def mount_def)

lemma in_flight_step: "in_flight_inv s \<Longrightarrow> in_flight_inv (step e s)"
proof (cases e)
  case (Props opn im)
  assume "in_flight_inv s"
  then show ?thesis
    by (simp add: Props in_flight_inv_def set_props_def reset_effect_def Let_def)
next
  case (Input f v)
  assume "in_flight_inv s"
  then show ?thesis
    by (simp add: Input in_flight_inv_def handleInputChange_def Let_def)
next
  case Submit
  assume "in_flight_inv s"
  then show ?thesis
    by (auto simp add: Submit in_flight_inv_def handleSubmit_def submit_disabled_def
        form_rendered_def)
next
  case SwitchMode
  assume "in_flight_inv s"
  then show ?thesis
    by (simp add: SwitchMode in_flight_inv_def switchMode_def form_rendered_def)
next
  case (Settle i r)
  assume a: "in_flight_inv s"
  show ?thesis
  proof (cases "i < length (pending s)")
    case True
    with a have "take i (pending s) @ drop (Suc i) (pending s) = []"
      by (simp add: remove_only in_flight_inv_def)
    with a True show ?thesis
      by (simp add: Settle in_flight_inv_def settle_def Let_def
          split: outcome.split option.split)
  next
    case False
    with a show ?thesis by (simp add: Settle)
  qed
next
  case (Timeout i)
  assume "in_flight_inv s"
  then show ?thesis
    by (simp add: Timeout in_flight_inv_def fire_timer_def onClose_def)
qed (simp_all add: in_flight_inv_def onClose_def handleBackdropClick_def handleEscKey_def)


lemma reachable_in_flight: "reachable st \<Longrightarrow> in_flight_inv st"
  by (rule reachable_invariant[where P = in_flight_inv])
    (simp_all add: in_flight_mount in_flight_step)

text \<open>
  Claim C8. In every state the component can reach, at most one remote call is pending;
  the submitting flag is set, and the submit control disabled, exactly while one is
  pending; a submission while one is pending changes nothing, so no second one begins;
  and when the pending call settles, whatever the outcome (success, remote error,
  thrown exception), the flag is cleared and no call is pending.
\<close>

theorem one_submission_in_flight:
  "reachable st \<longrightarrow>
     length (pending st) \<le> 1 \<and>
     (isSubmitting st \<longleftrightarrow> pending st \<noteq> []) \<and>
     (submit_disabled st \<longleftrightarrow> pending st \<noteq> []) \<and>
     (pending st \<noteq> [] \<longrightarrow> step Submit st = st) \<and>
     (\<forall>i r. i < length (pending st) \<longrightarrow>
        \<not> isSubmitting (step (Settle i r) st) \<and> pending (step (Settle i r) st) = [])"
proof
  assume r: "reachable st"
  then have inv: "in_flight_inv st" by (rule reachable_in_flight)
  have a: "length (pending st) \<le> 1" and b: "isSubmitting st \<longleftrightarrow> pending st \<noteq> []"
    using inv by (simp_all add: in_flight_inv_def)
  have c: "submit_disabled st \<longleftrightarrow> pending st \<noteq> []"
    using b by (simp add: submit_disabled_def)
  have d: "pending st \<noteq> [] \<longrightarrow> step Submit st = st"
    using c by simp
  have e: "\<not> isSubmitting (step (Settle i r) st) \<and> pending (step (Settle i r) st) = []"
    if "i < length (pending st)" for i r
  proof -
    from inv have "in_flight_inv (step (Settle i r) st)" by (rule in_flight_step)
    moreover have "\<not> isSubmitting (step (Settle i r) st)"
      using that by (simp add: settle_def Let_def split: outcome.split option.split)
    ultimately show ?thesis by (simp add: in_flight_inv_def)
  qed
  from a b c d e
  show "length (pending st) \<le> 1 \<and>
     (isSubmitting st \<longleftrightarrow> pending st \<noteq> []) \<and>
     (submit_disabled st \<longleftrightarrow> pending st \<noteq> []) \<and>
     (pending st \<noteq> [] \<longrightarrow> step Submit st = st) \<and>
     (\<forall>i r. i < length (pending st) \<longrightarrow>
        \<not> isSubmitting (step (Settle i r) st) \<and> pending (step (Settle i r) st) = [])"
    by blast
qed

text \<open>
  C8 on a run: after a valid submission one call is pending and the flag is set; a
  second submission changes nothing; a thrown exception clears the flag.
\<close>

theorem one_submission_in_flight_witness:
  "reachable (run [Input f_email (js ''a@b.c''), Input f_password (js ''hunter1''), Submit]
     (mount True signin)) \<and>
   pending (run [Input f_email (js ''a@b.c''), Input f_password (js ''hunter1''), Submit]
     (mount True signin)) = [signIn (js ''a@b.c'') (js ''hunter1'')] \<and>
   isSubmitting (run [Input f_email (js ''a@b.c''), Input f_password (js ''hunter1''), Submit]
     (mount True signin)) \<and>
   run [Input f_email (js ''a@b.c''), Input f_password (js ''hunter1''), Submit, Submit]
     (mount True signin) =
   run [Input f_email (js ''a@b.c''), Input f_password (js ''hunter1''), Submit]
     (mount True signin) \<and>
   \<not> isSubmitting (run [Input f_email (js ''a@b.c''), Input f_password (js ''hunter1''),
     Submit, Settle 0 Thrown] (mount True signin))"
proof -
  define s where "s = run [Input f_email (js ''a@b.c''), Input f_password (js ''hunter1''),
    Submit] (mount True signin)"
  have r1: "run [Input f_email (js ''a@b.c''), Input f_password (js ''hunter1''), Submit, Submit]
     (mount True signin) = step Submit s"
    and r2: "run [Input f_email (js ''a@b.c''), Input f_password (js ''hunter1''),
     Submit, Settle 0 Thrown] (mount True signin) = step (Settle 0 Thrown) s"
    unfolding s_def by simp_all
  have re: "reachable s"
    unfolding reachable_def s_def by blast
  have p: "pending s = [signIn (js ''a@b.c'') (js ''hunter1'')]"
    unfolding s_def by (simp add: eval_modal)
  note th = one_submission_in_flight[of s]
  from th re p have "isSubmitting s" by simp
  moreover from th re p have "step Submit s = s" by simp
  moreover from th re p have "\<not> isSubmitting (step (Settle 0 Thrown) s)" by simp
  ultimately show ?thesis
    unfolding r1 r2 using re p unfolding s_def by blast
qed

subsection \<open>The success path\<close>

lemma success_mount: "success_inv (mount opn im)"
  by (simp add: success_inv_def mount_def)

lemma success_step:
  assumes f: "in_flight_inv s" and a: "success_inv s"
  shows "success_inv (step e s)"
proof (cases e)
  case (Props opn im)
  from a have "successes s = 1 \<Longrightarrow> pending s = [] \<and> (isOpen s \<longrightarrow> isSuccess s)"
    by (simp add: success_inv_def)
  with a show ?thesis
    by (auto simp add: Props success_inv_def set_props_def reset_effect_def Let_def)
next
  case (Input f v)
  from a show ?thesis
    by (simp add: Input success_inv_def handleInputChange_def Let_def)
next
  case Submit
  show ?thesis
  proof (cases "form_rendered s \<and> \<not> submit_disabled s")
    case True
    with a have "successes s \<noteq> 1"
      by (auto simp add: success_inv_def form_rendered_def)
    with a have "successes s = 0"
      by (simp add: success_inv_def)
    with a True show ?thesis
      by (simp add: Submit success_inv_def handleSubmit_def)
  next
    case False
    then have "step Submit s = s" by auto
    with a show ?thesis by (simp add: Submit)
  qed
next
  case SwitchMode
  have "success_inv (switchMode s) = success_inv s"
    by (simp add: success_inv_def switchMode_def)
  with a show ?thesis
    by (simp add: SwitchMode)
next
  case (Settle i r)
  show ?thesis
  proof (cases "i < length (pending s)")
    case True
    with f have e: "take i (pending s) @ drop (Suc i) (pending s) = []"
      by (simp add: remove_only in_flight_inv_def)
    from True have "pending s \<noteq> []" by auto
    with a have z: "successes s = 0"
      by (auto simp add: success_inv_def)
    from a z e True show ?thesis
      by (simp add: Settle success_inv_def settle_def Let_def
          split: outcome.split option.split)
  next
    case False
    with a show ?thesis by (simp add: Settle)
  qed
next
  case (Timeout i)
  show ?thesis
  proof (cases "i < length (timers s)")
    case True
    then have l: "length (take i (timers s) @ drop (Suc i) (timers s)) = length (timers s) - 1"
      by (rule length_remove_nth)
    with a True show ?thesis
      by (simp add: Timeout success_inv_def fire_timer_def onClose_def del: length_append)
  next
    case False
    with a show ?thesis by (simp add: Timeout)
  qed
qed (use a in \<open>simp_all add: success_inv_def onClose_def handleBackdropClick_def
  handleEscKey_def\<close>)

lemma reachable_success: "reachable st \<Longrightarrow> in_flight_inv st \<and> success_inv st"
  by (rule reachable_invariant[where P = "\<lambda>s. in_flight_inv s \<and> success_inv s"])
    (simp_all add: in_flight_mount in_flight_step success_mount success_step)


text \<open>
  Claim C7. When a pending call settles with a successful result, the component turns
  to the success display and sets one timer, due 1500 ms later, whose callback is
  \<open>onClose\<close>; it does not call \<open>onClose\<close> itself. A timer does nothing before it is due;
  once due it runs: \<open>onClose\<close> is called once and the timer is gone. In every state the
  component can reach, at most one success happened since the modal was last opened, and
  each success so far has either its timer still set or one call of \<open>onClose\<close> made by
  its timer.
\<close>

theorem success_closes_once:
  "(i < length (pending st) \<longrightarrow>
      isSuccess (step (Settle i (Resolved None)) st) \<and>
      timers (step (Settle i (Resolved None)) st) = timers st @ [now st + 1500] \<and>
      closeCalls (step (Settle i (Resolved None)) st) = closeCalls st \<and>
      successes (step (Settle i (Resolved None)) st) = Suc (successes st)) \<and>
   (j < length (timers st) \<and> now st < timers st ! j \<longrightarrow> step (Timeout j) st = st) \<and>
   (j < length (timers st) \<and> timers st ! j \<le> now st \<longrightarrow>
      closeCalls (step (Timeout j) st) = Suc (closeCalls st) \<and>
      timerCloses (step (Timeout j) st) = Suc (timerCloses st) \<and>
      timers (step (Timeout j) st) = take j (timers st) @ drop (Suc j) (timers st) \<and>
      length (timers (step (Timeout j) st)) = length (timers st) - 1) \<and>
   (reachable st \<longrightarrow>
      successes st \<le> 1 \<and> timerCloses st + length (timers st) = successTotal st)"
proof -
  have a: "i < length (pending st) \<longrightarrow>
      isSuccess (step (Settle i (Resolved None)) st) \<and>
      timers (step (Settle i (Resolved None)) st) = timers st @ [now st + 1500] \<and>
      closeCalls (step (Settle i (Resolved None)) st) = closeCalls st \<and>
      successes (step (Settle i (Resolved None)) st) = Suc (successes st)"
    by (simp add: settle_def Let_def)
  have b: "j < length (timers st) \<and> timers st ! j \<le> now st \<longrightarrow>
      closeCalls (step (Timeout j) st) = Suc (closeCalls st) \<and>
      timerCloses (step (Timeout j) st) = Suc (timerCloses st) \<and>
      timers (step (Timeout j) st) = take j (timers st) @ drop (Suc j) (timers st) \<and>
      length (timers (step (Timeout j) st)) = length (timers st) - 1"
    by (simp add: fire_timer_def onClose_def length_remove_nth del: length_append)
  have b': "j < length (timers st) \<and> now st < timers st ! j \<longrightarrow> step (Timeout j) st = st"
    by simp
  have c: "reachable st \<longrightarrow>
      successes st \<le> 1 \<and> timerCloses st + length (timers st) = successTotal st"
    using reachable_success[of st] by (simp add: success_inv_def)
  from a b b' c show ?thesis by blast
qed

text \<open>
  C7 on a run: a valid sign-in that succeeds shows the success display with one timer
  due at 1500 and no call of \<open>onClose\<close> yet; before 1500 ms have passed the timer does
  nothing; after them it calls \<open>onClose\<close> once and no timer is left.
\<close>

theorem success_closes_once_witness:
  "isSuccess (run [Input f_email (js ''a@b.c''), Input f_password (js ''hunter1''), Submit,
     Settle 0 (Resolved None)] (mount True signin)) \<and>
   timers (run [Input f_email (js ''a@b.c''), Input f_password (js ''hunter1''), Submit,
     Settle 0 (Resolved None)] (mount True signin)) = [1500] \<and>
   closeCalls (run [Input f_email (js ''a@b.c''), Input f_password (js ''hunter1''), Submit,
     Settle 0 (Resolved None), Tick 1499, Timeout 0] (mount True signin)) = 0 \<and>
   closeCalls (run [Input f_email (js ''a@b.c''), Input f_password (js ''hunter1''), Submit,
     Settle 0 (Resolved None), Tick 1499, Timeout 0, Tick 1, Timeout 0]
     (mount True signin)) = 1 \<and>
   timers (run [Input f_email (js ''a@b.c''), Input f_password (js ''hunter1''), Submit,
     Settle 0 (Resolved None), Tick 1499, Timeout 0, Tick 1, Timeout 0]
     (mount True signin)) = [] \<and>
   successes (run [Input f_email (js ''a@b.c''), Input f_password (js ''hunter1''), Submit,
     Settle 0 (Resolved None), Tick 1499, Timeout 0, Tick 1, Timeout 0]
     (mount True signin)) \<le> 1"
proof -
  define s where "s = run [Input f_email (js ''a@b.c''), Input f_password (js ''hunter1''),
    Submit] (mount True signin)"
  define t where "t = step (Settle 0 (Resolved None)) s"
  define t' where "t' = step (Tick 1499) t"
  define t'' where "t'' = step (Tick 1) (step (Timeout 0) t')"
  define u where "u = step (Timeout 0) t''"
  have r1: "run [Input f_email (js ''a@b.c''), Input f_password (js ''hunter1''), Submit,
     Settle 0 (Resolved None)] (mount True signin) = t"
    and r2: "run [Input f_email (js ''a@b.c''), Input f_password (js ''hunter1''), Submit,
     Settle 0 (Resolved None), Tick 1499, Timeout 0] (mount True signin) = step (Timeout 0) t'"
    and r3: "run [Input f_email (js ''a@b.c''), Input f_password (js ''hunter1''), Submit,
     Settle 0 (Resolved None), Tick 1499, Timeout 0, Tick 1, Timeout 0]
     (mount True signin) = u"
    unfolding s_def t_def t'_def t''_def u_def by simp_all
  have ru: "reachable u"
    unfolding reachable_def r3[symmetric] by blast
  have p: "0 < length (pending s)" and ts: "timers s = []" and cs: "closeCalls s = 0"
    and ns: "now s = 0"
    unfolding s_def by (simp_all add: eval_modal)
  from success_closes_once[of 0 s 0] p
  have t1: "isSuccess t" and t2: "timers t = timers s @ [now s + 1500]"
    and t3: "closeCalls t = closeCalls s"
    unfolding t_def by blast+
  from t2 ts ns have t2': "timers t = [1500]" by simp
  have nt: "now t = 0"
    unfolding t_def using p ns by (simp add: settle_def Let_def)
  have q': "0 < length (timers t') \<and> now t' < timers t' ! 0" and ct': "closeCalls t' = closeCalls t"
    unfolding t'_def using t2' nt by simp_all
  from success_closes_once[of 0 t' 0] q' have e: "step (Timeout 0) t' = t'" by blast
  have q'': "0 < length (timers t'') \<and> timers t'' ! 0 \<le> now t''"
    and ct'': "closeCalls t'' = closeCalls t"
    unfolding t''_def e unfolding t'_def using t2' nt by simp_all
  from success_closes_once[of 0 t'' 0] q''
  have u1: "closeCalls u = Suc (closeCalls t'')"
    and u2: "length (timers u) = length (timers t'') - 1"
    unfolding u_def by blast+
  have "timers t'' = [1500]"
    unfolding t''_def e unfolding t'_def using t2' by simp
  with u2 have u2': "timers u = []" by simp
  from success_closes_once[of 0 u 0] ru have u3: "successes u \<le> 1" by blast
  from t1 t2' t3 cs u1 u2' u3 ct' ct'' e show ?thesis
    unfolding r1 r2 r3 by simp
qed

subsection \<open>The catalog after the migrations\<close>

lemmas eval_migrated =
  migrated_def migration_054401_def migration_054800_def user_profiles_policies_def
  POLICY_def empty_catalog_def

lemma migrated_rls_enabled: "rls_enabled migrated = [REGISTRATIONS, USER_PROFILES]"
  by (simp add: eval_migrated)

lemma migrated_reads_registrations: "reads_of migrated cmd REGISTRATIONS \<noteq> []"
  "set (reads_of migrated cmd REGISTRATIONS) = {USER_PROFILES}"
  by (cases cmd; simp add: reads_of_def eval_migrated)+

lemma migrated_reads_user_profiles: "reads_of migrated SELECT USER_PROFILES = [USER_PROFILES]"
  by (simp add: reads_of_def eval_migrated)

lemma migrated_trigger_fns: "trigger_fns migrated = [create_user_profile_054800]"
  by (simp add: trigger_fns_def eval_migrated List.map_filter_simps)

lemma first_some_all: "xs \<noteq> [] \<Longrightarrow> \<forall>x\<in>set xs. x = Some y \<Longrightarrow> first_some xs = Some y"
  by (cases xs) auto

lemma migrated_recursion_user_profiles:
  "rls_recursion migrated (REGISTRATIONS # active) SELECT USER_PROFILES = Some USER_PROFILES"
proof (cases "USER_PROFILES \<in> set active")
  case True
  then show ?thesis
    by (simp add: rls_recursion.simps[of migrated "REGISTRATIONS # active"]
        migrated_rls_enabled migrated_reads_user_profiles)
next
  case False
  have "rls_recursion migrated (USER_PROFILES # REGISTRATIONS # active) SELECT USER_PROFILES =
      Some USER_PROFILES"
    by (simp add: rls_recursion.simps[of migrated "USER_PROFILES # REGISTRATIONS # active"]
        migrated_rls_enabled migrated_reads_user_profiles)
  with False show ?thesis
    by (simp add: rls_recursion.simps[of migrated "REGISTRATIONS # active"]
        migrated_rls_enabled migrated_reads_user_profiles)
qed

lemma migrated_recursion: "rls_recursion migrated [] cmd REGISTRATIONS = Some USER_PROFILES"
proof -
  have "first_some (map (\<lambda>u. rls_recursion migrated [REGISTRATIONS] SELECT u)
      (reads_of migrated cmd REGISTRATIONS)) = Some USER_PROFILES"
    using migrated_reads_registrations[of cmd]
    by (intro first_some_all) (auto simp add: migrated_recursion_user_profiles)
  then show ?thesis
    by (simp add: rls_recursion.simps[of migrated "[]"] migrated_rls_enabled
        migrated_reads_registrations)
qed


subsection \<open>The profile of a new account\<close>

lemma insert_profile_new:
  "insert_profile fault (users_id NEW) (new_profile NEW) tbl =
     (case fault of
        Some e \<Rightarrow> Inl e
      | None \<Rightarrow>
          if tbl (users_id NEW) \<noteq> None then Inl unique_violation
          else Inr (tbl(users_id NEW \<mapsto> new_profile NEW)))"
  by (simp add: insert_profile_def new_profile_def split: option.split)

lemma insert_auth_user_migrated:
  "auth_users db (users_id NEW) = None \<Longrightarrow>
     insert_auth_user migrated fault NEW db =
       (case returned (create_user_profile_054800 fault NEW (user_profiles db)) of
          Inl e \<Rightarrow> Inl e
        | Inr u \<Rightarrow>
            Inr (db\<lparr>auth_users := (auth_users db)(users_id NEW \<mapsto> NEW),
              user_profiles :=
                profiles_after (create_user_profile_054800 fault NEW (user_profiles db)),
              notices :=
                notices db @ raised (create_user_profile_054800 fault NEW (user_profiles db))\<rparr>))"
  by (simp add: insert_auth_user_def migrated_trigger_fns Let_def split: sum.split)

text \<open>
  Claim C5 as stated fails: when the profile insert is cancelled (as by a statement
  timeout), the handler \<open>WHEN OTHERS\<close> does not catch the error; the trigger function
  raises it and the insert into \<open>auth.users\<close> fails.
\<close>

theorem canceled_insert_counterexample:
  "insert_profile (Some query_canceled) (users_id ada) (new_profile ada) Map.empty =
     Inl query_canceled \<and>
   returned (create_user_profile_054800 (Some query_canceled) ada Map.empty) =
     Inl query_canceled \<and>
   insert_auth_user migrated (Some query_canceled) ada empty_db = Inl query_canceled"
proof -
  have "auth_users empty_db (users_id ada) = None" and "user_profiles empty_db = Map.empty"
    by (simp_all add: empty_db_def)
  moreover have "insert_profile (Some query_canceled) (users_id ada) (new_profile ada)
      Map.empty = Inl query_canceled"
    by (simp add: insert_profile_def)
  moreover have "returned (create_user_profile_054800 (Some query_canceled) ada Map.empty) =
      Inl query_canceled"
    by (simp add: create_user_profile_054800_def create_user_profile_def insert_profile_new
        when_others_def)
  ultimately show ?thesis
    by (simp add: insert_auth_user_migrated)
qed

text \<open>
  Claim C5, amended. For a new row of \<open>auth.users\<close>, the one trigger that the migrations
  leave runs \<open>create_user_profile\<close> once. When its insert succeeds (no fault, no profile
  with that id yet), exactly one record is added to \<open>user_profiles\<close>, under the
  account's id, with the role \<open>user\<close>, the account's email and the \<open>full_name\<close> of the
  metadata or the empty string; nothing is raised and \<open>NEW\<close> is returned. When its insert
  raises an error that \<open>WHEN OTHERS\<close> matches (any but a query cancellation and an
  assertion failure), the table is left as it was, one warning with that error is raised
  and \<open>NEW\<close> is returned, so the insert into \<open>auth.users\<close> of an account with a fresh id
  succeeds. A query cancellation or an assertion failure is not caught: the function
  raises it, and the insert into \<open>auth.users\<close> fails with it.
\<close>

theorem profile_created_unless_uncaught:
  "(fault = None \<and> tbl (users_id NEW) = None \<longrightarrow>
      profiles_after (create_user_profile fmt fault NEW tbl) =
        tbl(users_id NEW \<mapsto>
          \<lparr>full_name = Some (case raw_user_meta_data NEW ''full_name'' of
                               None \<Rightarrow> [] | Some n \<Rightarrow> n),
           profile_email = users_email NEW, role = Some ''user''\<rparr>) \<and>
      dom (profiles_after (create_user_profile fmt fault NEW tbl)) =
        insert (users_id NEW) (dom tbl) \<and>
      users_id NEW \<notin> dom tbl \<and>
      raised (create_user_profile fmt fault NEW tbl) = [] \<and>
      returned (create_user_profile fmt fault NEW tbl) = Inr NEW) \<and>
   (\<forall>e. insert_profile fault (users_id NEW) (new_profile NEW) tbl = Inl e \<and> when_others e \<longrightarrow>
      profiles_after (create_user_profile fmt fault NEW tbl) = tbl \<and>
      raised (create_user_profile fmt fault NEW tbl) = [WARNING fmt (users_id NEW) e] \<and>
      returned (create_user_profile fmt fault NEW tbl) = Inr NEW) \<and>
   (\<forall>e. insert_profile fault (users_id NEW) (new_profile NEW) tbl = Inl e \<and> \<not> when_others e \<longrightarrow>
      raised (create_user_profile fmt fault NEW tbl) = [] \<and>
      returned (create_user_profile fmt fault NEW tbl) = Inl e) \<and>
   (when_others e \<longleftrightarrow> e \<noteq> query_canceled \<and> e \<noteq> assert_failure) \<and>
   (fault \<noteq> None \<or> tbl (users_id NEW) \<noteq> None \<longrightarrow>
      (\<exists>e. insert_profile fault (users_id NEW) (new_profile NEW) tbl = Inl e)) \<and>
   trigger_fns migrated = [create_user_profile_054800] \<and>
   (auth_users db (users_id NEW) = None \<and> (\<forall>e. fault = Some e \<longrightarrow> when_others e) \<longrightarrow>
      (\<exists>db'. insert_auth_user migrated fault NEW db = Inr db' \<and>
         auth_users db' = (auth_users db)(users_id NEW \<mapsto> NEW) \<and>
         user_profiles db' =
           profiles_after (create_user_profile_054800 fault NEW (user_profiles db)) \<and>
         notices db' =
           notices db @ raised (create_user_profile_054800 fault NEW (user_profiles db)))) \<and>
   (auth_users db (users_id NEW) = None \<and> fault = Some e \<and> \<not> when_others e \<longrightarrow>
      insert_auth_user migrated fault NEW db = Inl e)"
proof -
  have a: "fault = None \<and> tbl (users_id NEW) = None \<longrightarrow>
      profiles_after (create_user_profile fmt fault NEW tbl) =
        tbl(users_id NEW \<mapsto>
          \<lparr>full_name = Some (case raw_user_meta_data NEW ''full_name'' of
                               None \<Rightarrow> [] | Some n \<Rightarrow> n),
           profile_email = users_email NEW, role = Some ''user''\<rparr>) \<and>
      dom (profiles_after (create_user_profile fmt fault NEW tbl)) =
        insert (users_id NEW) (dom tbl) \<and>
      users_id NEW \<notin> dom tbl \<and>
      raised (create_user_profile fmt fault NEW tbl) = [] \<and>
      returned (create_user_profile fmt fault NEW tbl) = Inr NEW"
  proof
    assume h: "fault = None \<and> tbl (users_id NEW) = None"
    then have "create_user_profile fmt fault NEW tbl =
        \<lparr>profiles_after = tbl(users_id NEW \<mapsto> new_profile NEW), raised = [],
         returned = Inr NEW\<rparr>"
      by (simp add: create_user_profile_def insert_profile_new)
    with h show "profiles_after (create_user_profile fmt fault NEW tbl) =
        tbl(users_id NEW \<mapsto>
          \<lparr>full_name = Some (case raw_user_meta_data NEW ''full_name'' of
                               None \<Rightarrow> [] | Some n \<Rightarrow> n),
           profile_email = users_email NEW, role = Some ''user''\<rparr>) \<and>
      dom (profiles_after (create_user_profile fmt fault NEW tbl)) =
        insert (users_id NEW) (dom tbl) \<and>
      users_id NEW \<notin> dom tbl \<and>
      raised (create_user_profile fmt fault NEW tbl) = [] \<and>
      returned (create_user_profile fmt fault NEW tbl) = Inr NEW"
      by (auto simp add: new_profile_def coalesce_def)
  qed
  have b: "\<forall>e. insert_profile fault (users_id NEW) (new_profile NEW) tbl = Inl e \<and>
        when_others e \<longrightarrow>
      profiles_after (create_user_profile fmt fault NEW tbl) = tbl \<and>
      raised (create_user_profile fmt fault NEW tbl) = [WARNING fmt (users_id NEW) e] \<and>
      returned (create_user_profile fmt fault NEW tbl) = Inr NEW"
    by (simp add: create_user_profile_def)
  have c: "\<forall>e. insert_profile fault (users_id NEW) (new_profile NEW) tbl = Inl e \<and>
        \<not> when_others e \<longrightarrow>
      raised (create_user_profile fmt fault NEW tbl) = [] \<and>
      returned (create_user_profile fmt fault NEW tbl) = Inl e"
    by (simp add: create_user_profile_def)
  have d: "fault \<noteq> None \<or> tbl (users_id NEW) \<noteq> None \<longrightarrow>
      (\<exists>e. insert_profile fault (users_id NEW) (new_profile NEW) tbl = Inl e)"
    by (auto simp add: insert_profile_new split: option.split)
  have r: "returned (create_user_profile_054800 fault NEW (user_profiles db)) = Inr NEW"
    if "\<forall>e. fault = Some e \<longrightarrow> when_others e"
    using that
  proof (cases fault)
    case None
    have "when_others unique_violation"
      by (simp add: when_others_def)
    with None show ?thesis
      by (simp add: create_user_profile_054800_def create_user_profile_def insert_profile_new)
  next
    case (Some e)
    with that have "when_others e" by simp
    with Some show ?thesis
      by (simp add: create_user_profile_054800_def create_user_profile_def insert_profile_new)
  qed
  have f: "auth_users db (users_id NEW) = None \<and> (\<forall>e. fault = Some e \<longrightarrow> when_others e) \<longrightarrow>
      (\<exists>db'. insert_auth_user migrated fault NEW db = Inr db' \<and>
         auth_users db' = (auth_users db)(users_id NEW \<mapsto> NEW) \<and>
         user_profiles db' =
           profiles_after (create_user_profile_054800 fault NEW (user_profiles db)) \<and>
         notices db' =
           notices db @ raised (create_user_profile_054800 fault NEW (user_profiles db)))"
    by (simp add: insert_auth_user_migrated r)
  have g: "auth_users db (users_id NEW) = None \<and> fault = Some e \<and> \<not> when_others e \<longrightarrow>
      insert_auth_user migrated fault NEW db = Inl e"
    by (simp add: insert_auth_user_migrated create_user_profile_054800_def
        create_user_profile_def insert_profile_new)
  have w: "when_others e \<longleftrightarrow> e \<noteq> query_canceled \<and> e \<noteq> assert_failure"
    by (rule when_others_def)
  from a b c d f g w migrated_trigger_fns show ?thesis by blast
qed

text \<open>
  C5 (amended) on an account with the metadata name "Ada": without a fault the profile
  is there, with the role \<open>user\<close>; with the fault "disk full" the account is created all
  the same, without a profile and with one warning; with an assertion failure the
  account is not created.
\<close>

theorem profile_created_unless_uncaught_witness:
  "(\<exists>db'. insert_auth_user migrated None ada empty_db = Inr db' \<and>
      auth_users db' 7 = Some ada \<and>
      user_profiles db' 7 =
        Some \<lparr>full_name = Some ''Ada'', profile_email = Some ''ada@example.com'',
             role = Some ''user''\<rparr> \<and>
      notices db' = []) \<and>
   (\<exists>db'. insert_auth_user migrated (Some (other_error ''disk full'')) ada empty_db = Inr db' \<and>
      auth_users db' 7 = Some ada \<and>
      user_profiles db' = Map.empty \<and>
      notices db' =
        [WARNING ''Could not create user profile for %: %'' 7 (other_error ''disk full'')]) \<and>
   insert_auth_user migrated (Some assert_failure) ada empty_db = Inl assert_failure"
proof -
  define tbl where "tbl = user_profiles empty_db"
  have i: "users_id ada = 7" and t: "tbl 7 = None" and n: "notices empty_db = []"
    and t': "tbl = Map.empty"
    and u: "auth_users empty_db (users_id ada) = None"
    and m: "raw_user_meta_data ada ''full_name'' = Some ''Ada''"
    and e: "users_email ada = Some ''ada@example.com''"
    by (simp_all add: ada_def empty_db_def tbl_def)
  note f = create_user_profile_054800_def[symmetric]
  note th1 = profile_created_unless_uncaught[of None tbl ada
    "''Could not create user profile for %: %''" assert_failure empty_db,
    unfolded f, folded tbl_def, unfolded i]
  note th2 = profile_created_unless_uncaught[of "Some (other_error ''disk full'')" tbl ada
    "''Could not create user profile for %: %''" assert_failure empty_db,
    unfolded f, folded tbl_def, unfolded i]
  note th3 = profile_created_unless_uncaught[of "Some assert_failure" tbl ada
    "''Could not create user profile for %: %''" assert_failure empty_db,
    unfolded f, folded tbl_def, unfolded i]
  have x: "insert_profile (Some (other_error ''disk full'')) 7 (new_profile ada) tbl =
      Inl (other_error ''disk full'')"
    by (simp add: insert_profile_def)
  have w: "when_others (other_error ''disk full'')" and w': "\<not> when_others assert_failure"
    by (simp_all add: when_others_def)
  have h1: "\<forall>e. (None :: sql_error option) = Some e \<longrightarrow> when_others e"
    by simp
  have h2: "\<forall>e. Some (other_error ''disk full'') = Some e \<longrightarrow> when_others e"
    using w by simp
  from th1[THEN conjunct1] t have p1: "profiles_after (create_user_profile_054800 None ada tbl) =
        tbl(7 \<mapsto>
          \<lparr>full_name = Some (case raw_user_meta_data ada ''full_name'' of
                               None \<Rightarrow> [] | Some n \<Rightarrow> n),
           profile_email = users_email ada, role = Some ''user''\<rparr>)"
    and p2: "raised (create_user_profile_054800 None ada tbl) = []"
    by blast+
  from th2[THEN conjunct2, THEN conjunct1] x w
  have q1: "profiles_after (create_user_profile_054800 (Some (other_error ''disk full'')) ada
      tbl) = tbl"
    and q2: "raised (create_user_profile_054800 (Some (other_error ''disk full'')) ada tbl) =
      [WARNING ''Could not create user profile for %: %'' 7 (other_error ''disk full'')]"
    by blast+
  note f1 = th1[THEN conjunct2, THEN conjunct2, THEN conjunct2, THEN conjunct2,
    THEN conjunct2, THEN conjunct2, THEN conjunct1]
  note f2 = th2[THEN conjunct2, THEN conjunct2, THEN conjunct2, THEN conjunct2,
    THEN conjunct2, THEN conjunct2, THEN conjunct1]
  note g3 = th3[THEN conjunct2, THEN conjunct2, THEN conjunct2, THEN conjunct2,
    THEN conjunct2, THEN conjunct2, THEN conjunct2]
  from f1 u[unfolded i] h1 obtain db1 where
    d1: "insert_auth_user migrated None ada empty_db = Inr db1"
      "auth_users db1 = (auth_users empty_db)(7 \<mapsto> ada)"
      "user_profiles db1 = profiles_after (create_user_profile_054800 None ada tbl)"
      "notices db1 = notices empty_db @ raised (create_user_profile_054800 None ada tbl)"
    by blast
  from f2 u[unfolded i] h2 obtain db2 where
    d2: "insert_auth_user migrated (Some (other_error ''disk full'')) ada empty_db = Inr db2"
      "auth_users db2 = (auth_users empty_db)(7 \<mapsto> ada)"
      "user_profiles db2 =
        profiles_after (create_user_profile_054800 (Some (other_error ''disk full'')) ada tbl)"
      "notices db2 = notices empty_db @
        raised (create_user_profile_054800 (Some (other_error ''disk full'')) ada tbl)"
    by blast
  from g3 u[unfolded i] w'
  have d3: "insert_auth_user migrated (Some assert_failure) ada empty_db = Inl assert_failure"
    by blast
  have "auth_users db1 7 = Some ada \<and>
      user_profiles db1 7 =
        Some \<lparr>full_name = Some ''Ada'', profile_email = Some ''ada@example.com'',
             role = Some ''user''\<rparr> \<and>
      notices db1 = []"
    unfolding d1 p1 p2 by (simp add: m e n)
  moreover have "auth_users db2 7 = Some ada \<and> user_profiles db2 = Map.empty \<and>
      notices db2 =
        [WARNING ''Could not create user profile for %: %'' 7 (other_error ''disk full'')]"
    unfolding d2 q1 q2 by (simp add: n t')
  ultimately show ?thesis using d1(1) d2(1) d3 by blast
qed

subsection \<open>Access to registrations\<close>

text \<open>
  Claim C6. The claim lets the registrant, an identity with the registration's email and
  an administrator read and write a registration. On the code no statement of an
  authenticated identity on \<open>registrations\<close> gets that far, whatever the command, the
  identity and the record: every policy of \<open>registrations\<close> sub-selects \<open>user_profiles\<close>,
  which has row-level security enabled and the policy "Admins can view all profiles",
  whose expression sub-selects \<open>user_profiles\<close> again; the rewriter raises "infinite
  recursion detected in policy for relation user_profiles", and nothing is granted.
\<close>

theorem registrations_statements_fail:
  "access migrated cmd s db r = Inl (infinite_recursion USER_PROFILES) \<and>
   \<not> granted migrated cmd s db r"
  by (simp add: access_def granted_def migrated_recursion)

text \<open>
  C6 on the registrant of a registration: the claim lets it read its record, and its
  \<open>SELECT\<close> fails.
\<close>

theorem registrations_statements_fail_witness:
  "is_registrant bob_session bobs_registration \<and>
   may_access bob_session admin_db bobs_registration \<and>
   access migrated SELECT bob_session admin_db bobs_registration =
     Inl (infinite_recursion USER_PROFILES) \<and>
   \<not> granted migrated SELECT bob_session admin_db bobs_registration"
proof -
  have "is_registrant bob_session bobs_registration"
    by (simp add: is_registrant_def bob_session_def bobs_registration_def)
  then show ?thesis
    using registrations_statements_fail[of SELECT bob_session admin_db bobs_registration]
    by (simp add: may_access_def)
qed

text \<open>
  The two policies are the cause: with them dropped no recursion is found, and the
  policies of \<open>registrations\<close> grant select to the registrant, to an identity with the
  registration's email, to an administrator by role or reserved email and to a JWT with
  the role \<open>admin\<close>, and insert, update and delete to the first two only.
\<close>

lemma reads_without_admin_profile_policies:
  "reads_of without_admin_profile_policies cmd REGISTRATIONS \<noteq> []"
  "set (reads_of without_admin_profile_policies cmd REGISTRATIONS) = {USER_PROFILES}"
  "reads_of without_admin_profile_policies SELECT USER_PROFILES = []"
  by (cases cmd; simp add: reads_of_def without_admin_profile_policies_def eval_migrated)+

lemma first_some_none: "\<forall>x\<in>set xs. x = None \<Longrightarrow> first_some xs = None"
  by (induction xs) auto

lemma no_recursion_without_admin_profile_policies:
  "rls_recursion without_admin_profile_policies [] cmd REGISTRATIONS = None"
proof -
  have "rls_recursion without_admin_profile_policies [REGISTRATIONS] SELECT USER_PROFILES = None"
    by (simp add: rls_recursion.simps[of _ "[REGISTRATIONS]"]
        reads_without_admin_profile_policies)
  then have "first_some (map (\<lambda>u. rls_recursion without_admin_profile_policies [REGISTRATIONS]
      SELECT u) (reads_of without_admin_profile_policies cmd REGISTRATIONS)) = None"
    using reads_without_admin_profile_policies(2)[of cmd]
    by (intro first_some_none) auto
  then show ?thesis
    by (simp add: rls_recursion.simps[of _ "[]"])
qed

lemma visible_without_admin_profile_policies:
  "visible_profiles without_admin_profile_policies s db (uid s) = user_profiles db (uid s)"
  by (simp add: visible_profiles_def policy_passes_def without_admin_profile_policies_def
      eval_migrated on_profile_def own_profile_def sql_eq_def split: option.split)

lemma own_054800_true:
  "own_054800 s db r = Some True \<longleftrightarrow> is_registrant s r \<or> email_matches s db r"
  by (auto simp add: own_054800_def sql_or_def sql_eq_def is_registrant_def email_matches_def
      split: option.splits)

lemma admin_054800_true:
  "admin_054800 s db r = Some True \<longleftrightarrow> is_admin s db \<or> jwt_role s = Some ''admin''"
  by (auto simp add: admin_054800_def sql_or_def sql_eq_def sql_in_def exists_admin_profile_def
      is_admin_def own_profile_role_def own_profile_email_def split: option.splits)

lemma rls_without_admin_profile_policies:
  "REGISTRATIONS \<in> set (rls_enabled without_admin_profile_policies)"
  by (simp add: without_admin_profile_policies_def eval_migrated)

lemma passes_without_admin_profile_policies:
  "policy_passes without_admin_profile_policies cmd REGISTRATIONS s db' (registration_row r) \<longleftrightarrow>
     own_054800 s db' r = Some True \<or> (cmd = SELECT \<and> admin_054800 s db' r = Some True)"
proof (cases cmd)
  case SELECT
  then show ?thesis
    by (simp add: policy_passes_def without_admin_profile_policies_def eval_migrated
        on_registration_def)
next
  case INSERT
  then show ?thesis
    by (simp add: policy_passes_def without_admin_profile_policies_def eval_migrated
        on_registration_def)
next
  case UPDATE
  then show ?thesis
    by (simp add: policy_passes_def without_admin_profile_policies_def eval_migrated
        on_registration_def)
next
  case DELETE
  then show ?thesis
    by (simp add: policy_passes_def without_admin_profile_policies_def eval_migrated
        on_registration_def)
qed

lemma access_without_admin_profile_policies:
  "access without_admin_profile_policies cmd s db r =
     Inr (is_registrant s r \<or> email_matches s db r \<or>
          cmd = SELECT \<and> (is_admin s db \<or> jwt_role s = Some ''admin''))"
proof -
  define db' where "db' = db\<lparr>user_profiles := visible_profiles without_admin_profile_policies s db\<rparr>"
  have v: "email_matches s db' r = email_matches s db r" "is_admin s db' = is_admin s db"
    by (simp_all add: db'_def email_matches_def is_admin_def own_profile_email_def
        own_profile_role_def visible_without_admin_profile_policies)
  have "access without_admin_profile_policies cmd s db r =
      Inr (policy_passes without_admin_profile_policies cmd REGISTRATIONS s db'
        (registration_row r))"
    by (simp add: access_def no_recursion_without_admin_profile_policies
        rls_without_admin_profile_policies db'_def)
  also have "\<dots> = Inr (own_054800 s db' r = Some True \<or>
      (cmd = SELECT \<and> admin_054800 s db' r = Some True))"
    by (simp only: passes_without_admin_profile_policies)
  also have "\<dots> = Inr ((is_registrant s r \<or> email_matches s db r) \<or>
      (cmd = SELECT \<and> (is_admin s db \<or> jwt_role s = Some ''admin'')))"
    by (simp only: own_054800_true admin_054800_true v)
  finally show ?thesis by (simp only: disj_assoc)
qed

end
